theory Spec2Isabelle
  imports Main "HOL-Library.Sublist"
begin

section \<open>Data model of the project consolidation middleware\<close>

text \<open>
  The development embeds the legacy-project consolidation migrator of fx-core (the
  middleware \<^verbatim>\<open>ProjectConsolidateMW\<close> and the functions it calls): the detector
  \<^verbatim>\<open>needConsolidateLocalRemote\<close>, the consent loop of \<^verbatim>\<open>upgrade\<close>, the
  transformer \<^verbatim>\<open>consolidateLocalRemote\<close> with its rollback handler, the re-entrancy
  latch \<^verbatim>\<open>checkMethod\<close>, and the structural comparison \<^verbatim>\<open>diff\<close>.
\<close>

subsection \<open>Paths and the file system\<close>

text \<open>
  A path is the list of its segments. The project path given by the inputs is taken as one
  opaque first segment, and \<^verbatim>\<open>path.join(base, a, b)\<close> appends the segments
  \<^verbatim>\<open>a\<close> and \<^verbatim>\<open>b\<close>. A directory contains exactly the paths it is a prefix of.
\<close>

type_synonym path = "string list"

datatype node = File string | Dir

type_synonym fsmap = "path \<Rightarrow> node option"

definition path_join :: "path \<Rightarrow> string list \<Rightarrow> path" where
  "path_join base segs = base @ segs"

definition pathExists :: "fsmap \<Rightarrow> path \<Rightarrow> bool" where
  "pathExists fs p = (fs p \<noteq> None)"

text \<open>
  \<^verbatim>\<open>fs.remove\<close> deletes a file or a whole directory tree and is silent on a missing
  path. \<^verbatim>\<open>fs.copy\<close> (fs-extra, overwriting) copies a file or a tree and creates the
  missing ancestor directories of the destination.
\<close>

definition fs_remove :: "fsmap \<Rightarrow> path \<Rightarrow> fsmap" where
  "fs_remove fs p = (\<lambda>q. if prefix p q then None else fs q)"

definition fs_copy :: "fsmap \<Rightarrow> path \<Rightarrow> path \<Rightarrow> fsmap" where
  "fs_copy fs src dst =
     (\<lambda>q. if prefix dst q then
            (case fs (src @ drop (length dst) q) of Some n \<Rightarrow> Some n | None \<Rightarrow> fs q)
          else if q \<noteq> [] \<and> strict_prefix q dst \<and> fs q = None then Some Dir
          else fs q)"

subsection \<open>Errors, results and the hook context\<close>

datatype error =
    TypeError
  | SyntaxError
  | IOError string
  | ConsolidateCanceledError
  | FxError string
  | ErrResult error

datatype 'a result = Ok 'a | Err error

datatype platform = VSCode | CLI | VS

record inputs =
  projectPath :: "string option"
  platform :: "platform option"

text \<open>
  \<^verbatim>\<open>ctx.arguments\<close> holds the call's arguments; the hook framework may append the
  context itself as the last one. Reading \<^verbatim>\<open>projectPath\<close> or \<^verbatim>\<open>platform\<close>
  from the context object gives \<^verbatim>\<open>undefined\<close>.
\<close>

datatype arg = ArgInputs inputs | ArgCtx

record ctx =
  arguments :: "arg list"
  ctx_method :: "string option"

definition argInputs :: "arg \<Rightarrow> inputs" where
  "argInputs a = (case a of ArgInputs i \<Rightarrow> i | ArgCtx \<Rightarrow> \<lparr>projectPath = None, platform = None\<rparr>)"

text \<open>
  \<^verbatim>\<open>const lastArg = ctx.arguments[ctx.arguments.length - 1];\<close>
  \<^verbatim>\<open>const inputs = lastArg === ctx ? ctx.arguments[ctx.arguments.length - 2] : lastArg;\<close>
  An index outside the array reads \<^verbatim>\<open>undefined\<close> (here \<open>None\<close>), and a property
  read on it raises a TypeError.
\<close>

definition ctxInputs :: "ctx \<Rightarrow> inputs option" where
  "ctxInputs c =
     (let args = arguments c; n = length args in
      if n = 0 then None
      else (case args ! (n - 1) of
              ArgCtx \<Rightarrow> (if 2 \<le> n then Some (argInputs (args ! (n - 2))) else None)
            | ArgInputs i \<Rightarrow> Some i))"

text \<open>A string is truthy when it is defined and not empty.\<close>

definition truthy :: "string option \<Rightarrow> bool" where
  "truthy s = (case s of None \<Rightarrow> False | Some v \<Rightarrow> v \<noteq> [])"

subsection \<open>JSON values and manifests\<close>

text \<open>
  The value \<^verbatim>\<open>JSON.parse\<close> returns. Numbers are kept as integers. An object is the
  list of its entries in key order.
\<close>

datatype json =
    JNull
  | JBool bool
  | JNum int
  | JStr string
  | JArr "json list"
  | JObj "(string \<times> json) list"

text \<open>
  The part of \<^verbatim>\<open>TeamsAppManifest\<close> the migrator reads and writes; the remaining
  properties are carried along unchanged.
\<close>

record static_tab =
  entityId :: "string option"
  contentUrl :: "string option"
  static_rest :: "(string \<times> json) list"

record configurable_tab =
  configurationUrl :: "string option"
  configurable_rest :: "(string \<times> json) list"

record manifest =
  staticTabs :: "static_tab list option"
  configurableTabs :: "configurable_tab list option"
  manifest_rest :: "(string \<times> json) list"

record projectSettings =
  appName :: string
  isSPFx :: bool

subsection \<open>The collaborators and the observable world\<close>

text \<open>
  Every awaited file operation of the transformer is a call site that the environment may
  make fail with an exception of its choice.
\<close>

datatype site =
    WriteEnvConfig
  | ReadRemoteManifest
  | WriteManifestTemplate
  | CopyManifestTemplate
  | CopyToBackup path
  | RemoveOriginal path
  | ReadForCompare path
  | RestoreCopy path
  | RemoveCreated path
  | RemoveBackupFolder
  | CopyReport

datatype event_name =
    ProjectConsolidateNotificationStart
  | ProjectConsolidateNotification
  | ProjectConsolidateError
  | ProjectConsolidateUpgradeStart
  | ProjectConsolidateAddLocalEnvStart
  | ProjectConsolidateAddLocalEnv
  | ProjectConsolidateAddSPFXManifestStart
  | ProjectConsolidateAddSPFXManifest
  | ProjectConsolidateCopyAzureManifestStart
  | ProjectConsolidateCopyAzureManifest
  | ProjectConsolidateBackupConfigStart
  | ProjectConsolidateBackupConfig
  | ProjectConsolidateUpgrade
  | ProjectConsolidateGuideStart
  | ProjectConsolidateCheckManifestError

datatype migrator_status = StatusOK | StatusCancel

datatype event =
    Event event_name
  | StatusEvent event_name migrator_status
  | ErrorEvent event_name error

datatype message =
    ConsolidateMessage
  | DifferentManifest
  | UpgradeCancelled
  | NoticeVSCode
  | NoticeCLI
  | NoticeCLIOldVersion
  | UpgradeSuccess string
  | SuccessMessage

record prompt =
  prompt_message :: message
  prompt_modal :: bool
  prompt_items :: "string list"

record world =
  files :: fsmap
  telemetry :: "event list"
  warnings :: "message list"
  infos :: "message list"
  opened :: "string list"
  prompts :: "prompt list"
  ignoreEntries :: "path list"
  ctxResult :: "error option"
  fileList :: "path list"
  removeMap :: "(path \<times> path) list"
  moveFiles :: string
  userCancelFlag :: bool

text \<open>
  The collaborators that are not part of the migrator: the feature flag, the settings
  loader, the environment manager's data, the exceptions of the file system, the JSON
  parser and printer, the placeholder-stripping regular expression, the URL templates of
  the SPFx plugin, the packaged upgrade report and the next middleware.
\<close>

record env =
  isConfigUnifyEnabled :: bool
  loadProjectSettings :: "inputs \<Rightarrow> projectSettings result"
  getLocalAppName :: "string \<Rightarrow> string"
  newEnvConfigData :: "string \<Rightarrow> string"
  fault :: "site \<Rightarrow> error option"
  parseManifest :: "string \<Rightarrow> manifest option option"
  stringifyManifest :: "manifest option \<Rightarrow> string"
  parseJson :: "string \<Rightarrow> json option"
  replaceManifestRegex :: "string \<Rightarrow> string"
  REMOTE_CONTENT_URL :: string
  REMOTE_CONFIGURATION_URL :: string
  upgradeReport :: "string option"
  next_mw :: "world \<Rightarrow> error option \<times> world"

section \<open>Detector\<close>

text \<open>
  \<^verbatim>\<open>needConsolidateLocalRemote\<close>. \<open>Inl TypeError\<close> is the property read on an
  undefined \<^verbatim>\<open>inputs\<close>.
\<close>

definition needConsolidateLocalRemote :: "env \<Rightarrow> ctx \<Rightarrow> world \<Rightarrow> error + bool" where
  "needConsolidateLocalRemote e c w =
     (if \<not> isConfigUnifyEnabled e then Inr False
      else (case ctxInputs c of
              None \<Rightarrow> Inl TypeError
            | Some i \<Rightarrow>
                if \<not> truthy (projectPath i) then Inr False
                else
                  (let fxExist = pathExists (files w) (path_join [the (projectPath i)] [''.fx'']) in
                   if \<not> fxExist then Inr False
                   else
                     (let consolidateManifestExist =
                            pathExists (files w)
                              (path_join [the (projectPath i)]
                                 [''templates'', ''appPackage'', ''manifest.template.json''])
                      in if \<not> consolidateManifestExist then Inr True else Inr False))))"

section \<open>Structural diff\<close>

text \<open>
  \<^verbatim>\<open>Object.keys\<close> of an array (and of a string) are the decimal numerals of its
  indices, so the numerals are modelled as JavaScript prints them.
\<close>

definition digit_char :: "nat \<Rightarrow> char" where
  "digit_char d = ''0123456789'' ! d"

function string_of_nat :: "nat \<Rightarrow> string" where
  "string_of_nat n =
     (if n < 10 then [digit_char n]
      else string_of_nat (n div 10) @ [digit_char (n mod 10)])"
  by pat_completeness auto
termination
  by (relation "measure id") auto

declare string_of_nat.simps [simp del]

definition ignoreKeys :: "string set" where
  "ignoreKeys =
     {''name'', ''contentUrl'', ''configurationUrl'', ''manifestVersion'', ''$schema'',
      ''description''}"

text \<open>
  \<^verbatim>\<open>Object.keys(o)\<close>: the own enumerable keys; \<open>None\<close> is the TypeError raised on
  \<^verbatim>\<open>null\<close>. An entry list denotes the object that maps a key to the first value
  listed for it.
\<close>

fun object_keys :: "json \<Rightarrow> string list option" where
  "object_keys JNull = None"
| "object_keys (JBool b) = Some []"
| "object_keys (JNum n) = Some []"
| "object_keys (JStr s) = Some (map string_of_nat [0..<length s])"
| "object_keys (JArr xs) = Some (map string_of_nat [0..<length xs])"
| "object_keys (JObj kvs) = Some (remdups (map fst kvs))"

text \<open>
  The property read \<^verbatim>\<open>o[key]\<close>; \<open>None\<close> stands for \<^verbatim>\<open>undefined\<close> and for the
  inherited methods, which are functions: neither is an object for \<^verbatim>\<open>isObject\<close>
  and neither is strictly equal to a JSON value. The inherited \<^verbatim>\<open>__proto__\<close> is
  the prototype, an object without enumerable keys.
\<close>

definition inherited :: "string \<Rightarrow> json option" where
  "inherited k = (if k = ''__proto__'' then Some (JObj []) else None)"

fun get_prop :: "json \<Rightarrow> string \<Rightarrow> json option" where
  "get_prop JNull k = None"
| "get_prop (JBool b) k = inherited k"
| "get_prop (JNum n) k = inherited k"
| "get_prop (JStr s) k =
     (case map_of (zip (map string_of_nat [0..<length s]) (map (\<lambda>c. JStr [c]) s)) k of
        Some v \<Rightarrow> Some v
      | None \<Rightarrow> if k = ''length'' then Some (JNum (int (length s))) else inherited k)"
| "get_prop (JArr xs) k =
     (case map_of (zip (map string_of_nat [0..<length xs]) xs) k of
        Some v \<Rightarrow> Some v
      | None \<Rightarrow> if k = ''length'' then Some (JNum (int (length xs))) else inherited k)"
| "get_prop (JObj kvs) k =
     (case map_of kvs k of Some v \<Rightarrow> Some v | None \<Rightarrow> inherited k)"

text \<open>\<^verbatim>\<open>typeof o === "object" && !!o\<close>\<close>

fun isObject :: "json option \<Rightarrow> bool" where
  "isObject (Some (JArr xs)) = True"
| "isObject (Some (JObj kvs)) = True"
| "isObject _ = False"

lemma size_prop_own:
  assumes "object_keys a = Some keys" "key \<in> set keys" "isObject (get_prop a key)"
  shows "size (the (get_prop a key)) < size a"
proof (cases a)
  case (JArr xs)
  with assms obtain i where i: "i < length xs" "key = string_of_nat i" by auto
  then have "(key, xs ! i) \<in> set (zip (map string_of_nat [0..<length xs]) xs)"
    by (auto simp: set_zip intro!: exI[of _ i])
  then obtain v where v: "map_of (zip (map string_of_nat [0..<length xs]) xs) key = Some v"
    by (metis weak_map_of_SomeI)
  then have "v \<in> set xs" by (meson map_of_SomeD set_zip_rightD)
  then have "size v < Suc (size_list size xs)"
    by (metis le_imp_less_Suc size_list_estimation' order_refl)
  with v JArr show ?thesis by simp
next
  case (JObj kvs)
  with assms have "key \<in> fst ` set kvs" by auto
  then obtain v where v: "map_of kvs key = Some v"
    by (metis domD dom_map_of_conv_image_fst)
  then have "(key, v) \<in> set kvs" by (rule map_of_SomeD)
  then have "size_prod (\<lambda>x. 0) size (key, v) \<le> size_list (size_prod (\<lambda>x. 0) size) kvs"
    by (metis size_list_estimation' order_refl)
  then have "size v < Suc (size_list (size_prod (\<lambda>x. 0) size) kvs)" by simp
  with v JObj show ?thesis by simp
next
  case (JStr s)
  with assms show ?thesis
    by (auto split: option.splits if_splits simp: inherited_def dest!: map_of_SomeD set_zip_rightD)
qed (use assms in \<open>auto simp: inherited_def\<close>)

text \<open>
  \<^verbatim>\<open>diff(a, b)\<close>; \<open>None\<close> is the TypeError of \<^verbatim>\<open>Object.keys\<close> on a
  \<^verbatim>\<open>null\<close> argument. The loop returns false at the first key that fails.
\<close>

function diff :: "json \<Rightarrow> json \<Rightarrow> bool option" where
  "diff a b =
     (case object_keys a of
        None \<Rightarrow> None
      | Some keys \<Rightarrow>
          (case object_keys b of
             None \<Rightarrow> None
           | Some bKeys \<Rightarrow>
               if length keys \<noteq> length bKeys then Some False
               else Some (list_all
                      (\<lambda>key. key \<in> ignoreKeys \<or>
                         (let aValue = get_prop a key; bValue = get_prop b key in
                          if isObject aValue \<and> isObject bValue
                          then diff (the aValue) (the bValue) = Some True
                          else aValue = bValue))
                      keys)))"
  by pat_completeness auto
termination
  apply (relation "measure (\<lambda>(a, b). size a)")
   apply simp
  apply (simp add: size_prop_own)
  done

declare diff.simps [simp del]

fun scalar :: "json \<Rightarrow> bool" where
  "scalar (JArr xs) = False"
| "scalar (JObj kvs) = False"
| "scalar _ = True"

section \<open>SPFx manifest rewriting\<close>

text \<open>
  \<^verbatim>\<open>componentIdRegex = /(?<=componentId=)([a-z0-9-]*)(?=%26)/\<close>. The character
  class excludes \<^verbatim>\<open>%\<close>, so at a position preceded by \<^verbatim>\<open>componentId=\<close> the only
  candidate is the longest run of class characters, and it matches when \<^verbatim>\<open>%26\<close>
  follows it. \<^verbatim>\<open>exec\<close> returns the leftmost match.
\<close>

definition idchar :: "char \<Rightarrow> bool" where
  "idchar c = (c \<in> set ''abcdefghijklmnopqrstuvwxyz0123456789-'')"

fun componentIdRegex_exec :: "string \<Rightarrow> string option" where
  "componentIdRegex_exec [] = None"
| "componentIdRegex_exec (c # s) =
     (if prefix ''componentId='' (c # s) \<and>
         prefix ''%26'' (dropWhile idchar (drop 12 (c # s)))
      then Some (takeWhile idchar (drop 12 (c # s)))
      else componentIdRegex_exec s)"

definition replaceSPFxComponentId :: "string \<Rightarrow> string" where
  "replaceSPFxComponentId content =
     (case componentIdRegex_exec content of Some m \<Rightarrow> m | None \<Rightarrow> '''')"

text \<open>
  \<^verbatim>\<open>util.format\<close> with string arguments, for the directives \<^verbatim>\<open>%s\<close> and
  \<^verbatim>\<open>%%\<close>; a percent sign before any other character is copied together with that
  character, and the arguments that are left over are appended, separated by spaces. The
  other directives of Node (\<^verbatim>\<open>%d %i %f %j %o %O %c\<close>) are not modelled.
\<close>

fun util_format :: "string \<Rightarrow> string list \<Rightarrow> string" where
  "util_format [] args = concat (map (\<lambda>a. CHR '' '' # a) args)"
| "util_format [c] args = c # concat (map (\<lambda>a. CHR '' '' # a) args)"
| "util_format (c # d # s) args =
     (if c = CHR ''%'' then
        (if d = CHR ''%'' then CHR ''%'' # util_format s args
         else if d = CHR ''s'' \<and> args \<noteq> [] then hd args @ util_format s (tl args)
         else c # d # util_format s args)
      else c # util_format (d # s) args)"

text \<open>\<^verbatim>\<open>String(v)\<close> of a string or \<^verbatim>\<open>undefined\<close>.\<close>

definition jsString :: "string option \<Rightarrow> string" where
  "jsString v = (case v of None \<Rightarrow> ''undefined'' | Some s \<Rightarrow> s)"

text \<open>
  The component identifier of one static tab, lines 212 to 215: the tab's
  \<^verbatim>\<open>entityId\<close>, replaced by the match in \<^verbatim>\<open>contentUrl\<close> when it is
  \<^verbatim>\<open>undefined\<close> and the URL is truthy, or when it is the empty string.
\<close>

definition staticComponentId :: "static_tab \<Rightarrow> string option" where
  "staticComponentId item =
     (let componentId = entityId item in
      if (truthy (contentUrl item) \<and> componentId = None) \<or> componentId = Some ''''
      then Some (replaceSPFxComponentId (jsString (contentUrl item)))
      else componentId)"

text \<open>
  The two \<^verbatim>\<open>forEach\<close> loops. \<^verbatim>\<open>componentId\<close> is one variable shared by both:
  the first loop overwrites it for every tab, the second starts from what the first left.
  Each function returns the rewritten tabs and the final value of the variable.
\<close>

fun rewriteStaticTabs ::
  "string \<Rightarrow> string option \<Rightarrow> static_tab list \<Rightarrow> static_tab list \<times> string option" where
  "rewriteStaticTabs tmpl componentId [] = ([], componentId)"
| "rewriteStaticTabs tmpl componentId (item # items) =
     (let componentId' = staticComponentId item;
          item' = item\<lparr>contentUrl :=
                    Some (util_format tmpl [jsString componentId', jsString componentId'])\<rparr>;
          r = rewriteStaticTabs tmpl componentId' items
      in (item' # fst r, snd r))"

fun rewriteConfigurableTabs ::
  "string \<Rightarrow> string option \<Rightarrow> configurable_tab list \<Rightarrow> configurable_tab list \<times> string option"
  where
  "rewriteConfigurableTabs tmpl componentId [] = ([], componentId)"
| "rewriteConfigurableTabs tmpl componentId (item # items) =
     (let componentId' =
            (if (truthy (configurationUrl item) \<and> componentId = None) \<or> componentId = Some ''''
             then Some (replaceSPFxComponentId (jsString (configurationUrl item)))
             else componentId);
          item' = item\<lparr>configurationUrl :=
                    Some (util_format tmpl [jsString componentId', jsString componentId'])\<rparr>;
          r = rewriteConfigurableTabs tmpl componentId' items
      in (item' # fst r, snd r))"

text \<open>Lines 209 to 236; \<open>None\<close> is a manifest that parsed to \<^verbatim>\<open>null\<close>.\<close>

definition rewriteSPFxManifest :: "env \<Rightarrow> manifest option \<Rightarrow> manifest option" where
  "rewriteSPFxManifest e mo =
     (case mo of
        None \<Rightarrow> None
      | Some m \<Rightarrow>
          (let st = (case staticTabs m of
                       None \<Rightarrow> (None, Some '''')
                     | Some [] \<Rightarrow> (Some [], Some '''')
                     | Some (t # ts) \<Rightarrow>
                         (let r = rewriteStaticTabs (REMOTE_CONTENT_URL e) (Some '''') (t # ts)
                          in (Some (fst r), snd r)));
               ct = (case configurableTabs m of
                       None \<Rightarrow> None
                     | Some [] \<Rightarrow> Some []
                     | Some (t # ts) \<Rightarrow>
                         Some (fst (rewriteConfigurableTabs (REMOTE_CONFIGURATION_URL e)
                                      (snd st) (t # ts))))
           in Some (m\<lparr>staticTabs := fst st, configurableTabs := ct\<rparr>)))"

section \<open>Transformer\<close>

subsection \<open>Steps and file operations\<close>

text \<open>
  A step runs on the world and either completes or raises; either way it returns the world
  it left behind, which is what the \<^verbatim>\<open>catch\<close> block sees.
\<close>

type_synonym step = "world \<Rightarrow> error option \<times> world"

fun run_steps :: "step list \<Rightarrow> step" where
  "run_steps [] w = (None, w)"
| "run_steps (f # fs) w =
     (case f w of (None, w') \<Rightarrow> run_steps fs w' | (Some x, w') \<Rightarrow> (Some x, w'))"

definition sendTelemetryEvent :: "event \<Rightarrow> step" where
  "sendTelemetryEvent ev w = (None, w\<lparr>telemetry := telemetry w @ [ev]\<rparr>)"

text \<open>
  An operation fails when the environment says so at its call site, and then changes
  nothing; \<^verbatim>\<open>copy\<close>, \<^verbatim>\<open>copyFile\<close> and \<^verbatim>\<open>readFile\<close> also fail when the source is
  missing, \<^verbatim>\<open>copyFile\<close> and \<^verbatim>\<open>readFile\<close> when it is a directory, and
  \<^verbatim>\<open>copyFile\<close> and \<^verbatim>\<open>writeFile\<close>, which create no directories, when the parent
  of the destination is missing.
\<close>

definition io_copy :: "env \<Rightarrow> site \<Rightarrow> path \<Rightarrow> path \<Rightarrow> step" where
  "io_copy e s src dst w =
     (case fault e s of
        Some x \<Rightarrow> (Some x, w)
      | None \<Rightarrow>
          if pathExists (files w) src then (None, w\<lparr>files := fs_copy (files w) src dst\<rparr>)
          else (Some (IOError ''ENOENT''), w))"

definition io_remove :: "env \<Rightarrow> site \<Rightarrow> path \<Rightarrow> step" where
  "io_remove e s p w =
     (case fault e s of
        Some x \<Rightarrow> (Some x, w)
      | None \<Rightarrow> (None, w\<lparr>files := fs_remove (files w) p\<rparr>))"

definition io_readFile :: "env \<Rightarrow> site \<Rightarrow> path \<Rightarrow> world \<Rightarrow> error + string" where
  "io_readFile e s p w =
     (case fault e s of
        Some x \<Rightarrow> Inl x
      | None \<Rightarrow>
          (case files w p of
             Some (File data) \<Rightarrow> Inr data
           | Some Dir \<Rightarrow> Inl (IOError ''EISDIR'')
           | None \<Rightarrow> Inl (IOError ''ENOENT'')))"

definition io_writeFile :: "env \<Rightarrow> site \<Rightarrow> path \<Rightarrow> string \<Rightarrow> step" where
  "io_writeFile e s p data w =
     (case fault e s of
        Some x \<Rightarrow> (Some x, w)
      | None \<Rightarrow>
          if pathExists (files w) (butlast p)
          then (None, w\<lparr>files := (files w)(p \<mapsto> File data)\<rparr>)
          else (Some (IOError ''ENOENT''), w))"

definition io_copyFile :: "env \<Rightarrow> site \<Rightarrow> path \<Rightarrow> path \<Rightarrow> step" where
  "io_copyFile e s src dst w =
     (case fault e s of
        Some x \<Rightarrow> (Some x, w)
      | None \<Rightarrow>
          (case files w src of
             Some (File data) \<Rightarrow>
               if pathExists (files w) (butlast dst)
               then (None, w\<lparr>files := (files w)(dst \<mapsto> File data)\<rparr>)
               else (Some (IOError ''ENOENT''), w)
           | Some Dir \<Rightarrow> (Some (IOError ''EISDIR''), w)
           | None \<Rightarrow> (Some (IOError ''ENOENT''), w)))"

subsection \<open>Collaborators of the transformer\<close>

text \<open>
  Modelled from the spec: \<^verbatim>\<open>environmentManager.getLocalEnvName\<close> is not among the
  sources; the local environment is named \<^verbatim>\<open>local\<close>.
\<close>

definition getLocalEnvName :: string where
  "getLocalEnvName = ''local''"

text \<open>
  Modelled from the spec: the path of an environment's config file is not among the
  sources. The config file of the environment \<^verbatim>\<open>local\<close> is
  \<^verbatim>\<open>.fx/configs/config.local.json\<close>, the path \<^verbatim>\<open>updateGitIgnore\<close> adds to the
  ignore file.
\<close>

definition envConfigPath :: "path \<Rightarrow> string \<Rightarrow> path" where
  "envConfigPath root envName = path_join root [''.fx'', ''configs'', ''config.'' @ envName @ ''.json'']"

text \<open>
  Modelled from the spec: \<^verbatim>\<open>environmentManager.writeEnvConfig\<close> is not among the
  sources. The spec has step 1 persist the generated record as a new environment config
  file. The call returns a \<^verbatim>\<open>Result\<close>: an error, without writing, or the path
  written.
\<close>

definition writeEnvConfig :: "env \<Rightarrow> path \<Rightarrow> string \<Rightarrow> string \<Rightarrow> world \<Rightarrow> path result \<times> world" where
  "writeEnvConfig e root envConfig envName w =
     (case fault e WriteEnvConfig of
        Some x \<Rightarrow> (Err x, w)
      | None \<Rightarrow>
          (Ok (envConfigPath root envName),
           w\<lparr>files := (files w)(envConfigPath root envName \<mapsto> File envConfig)\<rparr>))"

text \<open>
  Modelled from the spec: \<^verbatim>\<open>getManifestTemplatePath\<close> is not among the sources. It
  is the path of the unified manifest template, the one the detector tests.
\<close>

definition getManifestTemplatePath :: "path \<Rightarrow> path" where
  "getManifestTemplatePath root =
     path_join root [''templates'', ''appPackage'', ''manifest.template.json'']"

text \<open>
  Modelled from the spec: \<^verbatim>\<open>isSPFxProject\<close> is not among the sources; an SPFx
  project is identified by a flag of the project settings.
\<close>

definition isSPFxProject :: "projectSettings \<Rightarrow> bool" where
  "isSPFxProject ps = isSPFx ps"

definition backupFolder :: string where
  "backupFolder = ''.backup''"

definition upgradeReportName :: string where
  "upgradeReportName = ''unify-config-change-logs.md''"

subsection \<open>The steps of \<^verbatim>\<open>consolidateLocalRemote\<close>\<close>

text \<open>Lines 179 to 192: add the local environment.\<close>

definition addLocalEnv :: "env \<Rightarrow> path \<Rightarrow> projectSettings \<Rightarrow> step" where
  "addLocalEnv e root ps =
     run_steps
       [sendTelemetryEvent (Event ProjectConsolidateAddLocalEnvStart),
        (\<lambda>w. case writeEnvConfig e root (newEnvConfigData e (getLocalAppName e (appName ps)))
                     getLocalEnvName w of
                (Err x, w') \<Rightarrow> (Some (ErrResult x), w')
              | (Ok p, w') \<Rightarrow> (None, w')),
        (\<lambda>w. (None, w\<lparr>fileList :=
                 fileList w @ [path_join root [''.fx'', ''configs'', ''env.local.json'']]\<rparr>)),
        sendTelemetryEvent (Event ProjectConsolidateAddLocalEnv)]"

text \<open>Lines 204 to 238: the SPFx branch reads, parses, rewrites and writes the manifest.\<close>

definition addSPFxManifest :: "env \<Rightarrow> path \<Rightarrow> path \<Rightarrow> step" where
  "addSPFxManifest e root remoteManifestFile w =
     (case io_readFile e ReadRemoteManifest remoteManifestFile w of
        Inl x \<Rightarrow> (Some x, w)
      | Inr manifestString \<Rightarrow>
          (case parseManifest e manifestString of
             None \<Rightarrow> (Some SyntaxError, w)
           | Some m \<Rightarrow>
               io_writeFile e WriteManifestTemplate (getManifestTemplatePath root)
                 (stringifyManifest e (rewriteSPFxManifest e m)) w))"

text \<open>Lines 194 to 248: add the consolidated manifest and record a path in the file list.\<close>

definition addConsolidateManifest :: "env \<Rightarrow> path \<Rightarrow> projectSettings \<Rightarrow> step" where
  "addConsolidateManifest e root ps =
     (let remoteManifestFile =
            path_join root [''templates'', ''appPackage'', ''manifest.remote.template.json'']
      in run_steps
        [(\<lambda>w. if pathExists (files w) remoteManifestFile then
                 (if isSPFxProject ps then
                    run_steps
                      [sendTelemetryEvent (Event ProjectConsolidateAddSPFXManifestStart),
                       addSPFxManifest e root remoteManifestFile,
                       sendTelemetryEvent (Event ProjectConsolidateAddSPFXManifest)] w
                  else
                    run_steps
                      [sendTelemetryEvent (Event ProjectConsolidateCopyAzureManifestStart),
                       io_copyFile e CopyManifestTemplate remoteManifestFile
                         (getManifestTemplatePath root),
                       sendTelemetryEvent (Event ProjectConsolidateCopyAzureManifest)] w)
               else (None, w)),
         (\<lambda>w. (None, w\<lparr>fileList :=
                  fileList w @
                    [path_join root [''templates'', ''appPackage'', ''template.manifest.json'']]\<rparr>))])"

text \<open>\<^verbatim>\<open>Map.prototype.set\<close>: replace the value of a key in place, or append the entry.\<close>

fun map_set :: "'k \<Rightarrow> 'v \<Rightarrow> ('k \<times> 'v) list \<Rightarrow> ('k \<times> 'v) list" where
  "map_set k v [] = [(k, v)]"
| "map_set k v ((k', v') # m) = (if k = k' then (k, v) # m else (k', v') # map_set k v m)"

text \<open>
  The pattern of lines 260 to 272, 282 to 294 and 295 to 307: if the legacy file exists,
  copy it into the backup folder under the same relative path, delete the original, append
  its name to the move list and record backup and original in the remove map.
\<close>

definition backupAndRemove :: "env \<Rightarrow> path \<Rightarrow> string list \<Rightarrow> step" where
  "backupAndRemove e root rel w =
     (let original = path_join root rel;
          backup = path_join (path_join root [backupFolder]) rel
      in if pathExists (files w) original then
           run_steps
             [io_copy e (CopyToBackup original) original backup,
              io_remove e (RemoveOriginal original) original,
              (\<lambda>w. (None, w\<lparr>moveFiles := moveFiles w @ last rel @ '','',
                              removeMap := map_set backup original (removeMap w)\<rparr>))] w
         else (None, w))"

text \<open>
  Lines 398 to 426. The body of the \<^verbatim>\<open>try\<close> block returns the world or the
  exception; the \<^verbatim>\<open>catch\<close> block reports the exception and returns normally. The
  warning dialog is not awaited.
\<close>

definition compareBody :: "env \<Rightarrow> path \<Rightarrow> path \<Rightarrow> world \<Rightarrow> error + world" where
  "compareBody e localManifestFile remoteManifestFile w =
     (case io_readFile e (ReadForCompare localManifestFile) localManifestFile w of
        Inl x \<Rightarrow> Inl x
      | Inr l \<Rightarrow>
          (case io_readFile e (ReadForCompare remoteManifestFile) remoteManifestFile w of
             Inl x \<Rightarrow> Inl x
           | Inr r \<Rightarrow>
               (case parseJson e (replaceManifestRegex e l) of
                  None \<Rightarrow> Inl SyntaxError
                | Some localManifestJson \<Rightarrow>
                    (case parseJson e (replaceManifestRegex e r) of
                       None \<Rightarrow> Inl SyntaxError
                     | Some remoteManifestJson \<Rightarrow>
                         (case diff localManifestJson remoteManifestJson of
                            None \<Rightarrow> Inl TypeError
                          | Some True \<Rightarrow> Inr w
                          | Some False \<Rightarrow>
                              Inr (w\<lparr>prompts := prompts w @
                                     [\<lparr>prompt_message = DifferentManifest, prompt_modal = False,
                                       prompt_items = [''OK'']\<rparr>]\<rparr>))))))"

definition compareLocalAndRemoteManifest :: "env \<Rightarrow> path \<Rightarrow> path \<Rightarrow> step" where
  "compareLocalAndRemoteManifest e localManifestFile remoteManifestFile w =
     (case compareBody e localManifestFile remoteManifestFile w of
        Inr w' \<Rightarrow> (None, w')
      | Inl x \<Rightarrow>
          (None, w\<lparr>telemetry := telemetry w @
                     [ErrorEvent ProjectConsolidateCheckManifestError x]\<rparr>))"

text \<open>
  Lines 334 to 378. \<^verbatim>\<open>postConsolidate\<close> is called without \<^verbatim>\<open>await\<close>, so it never
  raises into the \<^verbatim>\<open>try\<close> block; its effects are the ignore-file entries handed to
  \<^verbatim>\<open>addPathToGitignore\<close> and the log lines.
\<close>

definition updateGitIgnore :: "path \<Rightarrow> world \<Rightarrow> world" where
  "updateGitIgnore root w =
     w\<lparr>ignoreEntries := ignoreEntries w @
         [path_join root [''.fx'', ''configs'', ''config.local.json''],
          path_join root [''.fx'', ''states'', ''state.local.json''],
          path_join root [backupFolder]]\<rparr>"

definition postConsolidate :: "path \<Rightarrow> inputs \<Rightarrow> step" where
  "postConsolidate root i w =
     (let w1 = updateGitIgnore root (w\<lparr>telemetry := telemetry w @ [Event ProjectConsolidateGuideStart]\<rparr>);
          w2 = (if 0 < length (moveFiles w1)
                then w1\<lparr>warnings := warnings w1 @ [UpgradeSuccess (butlast (moveFiles w1))]\<rparr>
                else w1)
      in (None, if platform i \<noteq> Some VSCode then w2\<lparr>infos := infos w2 @ [SuccessMessage]\<rparr> else w2))"

text \<open>Lines 178 to 312: the body of the \<^verbatim>\<open>try\<close> block, statement by statement.\<close>

definition transform_steps :: "env \<Rightarrow> path \<Rightarrow> projectSettings \<Rightarrow> inputs \<Rightarrow> step list" where
  "transform_steps e root ps i =
     (let remoteManifestFile =
            path_join root [''templates'', ''appPackage'', ''manifest.remote.template.json''];
          localManifestFile =
            path_join root [''templates'', ''appPackage'', ''manifest.local.template.json'']
      in [addLocalEnv e root ps,
          addConsolidateManifest e root ps,
          sendTelemetryEvent (Event ProjectConsolidateBackupConfigStart),
          backupAndRemove e root [''.fx'', ''configs'', ''localSettings.json''],
          (\<lambda>w. if pathExists (files w) localManifestFile \<and> pathExists (files w) remoteManifestFile
                then compareLocalAndRemoteManifest e localManifestFile remoteManifestFile w
                else (None, w)),
          backupAndRemove e root [''templates'', ''appPackage'', ''manifest.local.template.json''],
          backupAndRemove e root [''templates'', ''appPackage'', ''manifest.remote.template.json''],
          sendTelemetryEvent (Event ProjectConsolidateBackupConfig),
          sendTelemetryEvent (Event ProjectConsolidateUpgrade),
          postConsolidate root i])"

definition transform :: "env \<Rightarrow> path \<Rightarrow> projectSettings \<Rightarrow> inputs \<Rightarrow> step" where
  "transform e root ps i = run_steps (transform_steps e root ps i)"

text \<open>Lines 313 to 322: the \<^verbatim>\<open>catch\<close> block up to the rethrow.\<close>

fun restoreAll :: "env \<Rightarrow> (path \<times> path) list \<Rightarrow> step" where
  "restoreAll e [] w = (None, w)"
| "restoreAll e (item # items) w =
     (case io_copy e (RestoreCopy (fst item)) (fst item) (snd item) w of
        (None, w') \<Rightarrow> restoreAll e items w'
      | (Some x, w') \<Rightarrow> (Some x, w'))"

fun removeAll :: "env \<Rightarrow> path list \<Rightarrow> step" where
  "removeAll e [] w = (None, w)"
| "removeAll e (item # items) w =
     (case io_remove e (RemoveCreated item) item w of
        (None, w') \<Rightarrow> removeAll e items w'
      | (Some x, w') \<Rightarrow> (Some x, w'))"

definition rollback :: "env \<Rightarrow> path \<Rightarrow> step" where
  "rollback e root w =
     run_steps
       [restoreAll e (removeMap w),
        removeAll e (fileList w),
        io_remove e RemoveBackupFolder (path_join root [backupFolder])] w"

text \<open>Lines 380 to 388: the report is copied into the backup folder; a failure is ignored.\<close>

definition generateUpgradeReport :: "env \<Rightarrow> path \<Rightarrow> world \<Rightarrow> world" where
  "generateUpgradeReport e backup w =
     (case upgradeReport e of
        None \<Rightarrow> w
      | Some report \<Rightarrow>
          (case io_writeFile e CopyReport (path_join backup [upgradeReportName]) report w of
             (None, w') \<Rightarrow> w'
           | (Some x, w') \<Rightarrow> w))"

text \<open>
  Lines 164 to 326. The result is the exception (\<open>Inl\<close>) or the returned boolean. The file
  list, the remove map and the move list are locals of the call; they are kept in the
  world so that they can be observed.
\<close>

definition consolidateLocalRemote :: "env \<Rightarrow> ctx \<Rightarrow> world \<Rightarrow> (error + bool) \<times> world" where
  "consolidateLocalRemote e c w0 =
     (let w = w0\<lparr>telemetry := telemetry w0 @ [Event ProjectConsolidateUpgradeStart],
                 fileList := [], removeMap := [], moveFiles := []\<rparr>
      in case ctxInputs c of
           None \<Rightarrow> (Inl TypeError, w)
         | Some i \<Rightarrow>
             (case loadProjectSettings e i of
                Err x \<Rightarrow> (Inr False, w\<lparr>ctxResult := Some x\<rparr>)
              | Ok ps \<Rightarrow>
                  (case projectPath i of
                     None \<Rightarrow>
                       (Inl TypeError,
                        w\<lparr>telemetry := telemetry w @ [Event ProjectConsolidateAddLocalEnvStart]\<rparr>)
                   | Some p \<Rightarrow>
                       (case transform e [p] ps i w of
                          (None, w') \<Rightarrow>
                            (Inr True, generateUpgradeReport e (path_join [p] [backupFolder]) w')
                        | (Some x, w') \<Rightarrow>
                            (case rollback e [p] w' of
                               (None, w'') \<Rightarrow> (Inl x, w'')
                             | (Some y, w'') \<Rightarrow> (Inl y, w''))))))"

section \<open>Interactive gate\<close>

definition upgradeButton :: string where
  "upgradeButton = ''Upgrade''"

definition LearnMore :: string where
  "LearnMore = ''Learn More''"

definition LearnMoreLink :: string where
  "LearnMoreLink = ''https://aka.ms/teamsfx-unify-config-guide''"

text \<open>
  Lines 83 to 95. The user is the list of the results \<^verbatim>\<open>showMessage\<close> will resolve
  to, in order. When the list runs out the dialog stays open and the call never returns:
  \<open>None\<close>. The global \<^verbatim>\<open>TOOLS\<close> is taken as initialised, so the optional chaining
  on it always goes through.
\<close>

fun promptLoop ::
  "bool \<Rightarrow> string option result list \<Rightarrow> world \<Rightarrow> (string option \<times> world) option" where
  "promptLoop showModal [] w = None"
| "promptLoop showModal (res # rest) w =
     (let w1 = w\<lparr>prompts := prompts w @
                   [\<lparr>prompt_message = ConsolidateMessage, prompt_modal = showModal,
                     prompt_items = [upgradeButton, LearnMore]\<rparr>]\<rparr>;
          answer = (case res of Ok v \<Rightarrow> v | Err x \<Rightarrow> None)
      in if answer = Some LearnMore
         then promptLoop showModal rest (w1\<lparr>opened := opened w1 @ [LearnMoreLink]\<rparr>)
         else Some (answer, w1))"

text \<open>Lines 145 to 162.\<close>

definition outputCancelMessage :: "ctx \<Rightarrow> step" where
  "outputCancelMessage c w =
     (let w1 = w\<lparr>warnings := warnings w @ [UpgradeCancelled]\<rparr> in
      case ctxInputs c of
        None \<Rightarrow> (Some TypeError, w1)
      | Some i \<Rightarrow>
          if platform i = Some VSCode
          then (None, w1\<lparr>warnings := warnings w1 @ [NoticeVSCode]\<rparr>)
          else (None, w1\<lparr>warnings := warnings w1 @ [NoticeCLI, NoticeCLIOldVersion]\<rparr>))"

text \<open>
  Lines 81 to 119. The result is \<open>None\<close> while the dialog is open, and otherwise the
  exception the call raised, if any, and the world it left.
\<close>

definition upgrade ::
  "env \<Rightarrow> ctx \<Rightarrow> bool \<Rightarrow> string option result list \<Rightarrow> world \<Rightarrow> (error option \<times> world) option"
  where
  "upgrade e c showModal answers w =
     (case promptLoop showModal answers w of
        None \<Rightarrow> None
      | Some (answer, w1) \<Rightarrow>
          if \<not> truthy answer \<or> answer \<noteq> Some upgradeButton then
            Some (outputCancelMessage c
                    (w1\<lparr>telemetry := telemetry w1 @
                           [StatusEvent ProjectConsolidateNotification StatusCancel],
                         ctxResult := Some ConsolidateCanceledError\<rparr>))
          else
            (let w2 = w1\<lparr>telemetry := telemetry w1 @
                           [StatusEvent ProjectConsolidateNotification StatusOK]\<rparr>
             in case consolidateLocalRemote e c w2 of
                  (Inl x, w3) \<Rightarrow>
                    Some (Some x, w3\<lparr>telemetry := telemetry w3 @
                                       [ErrorEvent ProjectConsolidateError x]\<rparr>)
                | (Inr b, w3) \<Rightarrow>
                    (case next_mw e w3 of
                       (None, w4) \<Rightarrow> Some (None, w4)
                     | (Some x, w4) \<Rightarrow>
                         Some (Some x, w4\<lparr>telemetry := telemetry w4 @
                                            [ErrorEvent ProjectConsolidateError x]\<rparr>))))"

section \<open>Re-entrancy latch\<close>

definition methods :: "string set" where
  "methods = {''getProjectConfig'', ''checkPermission''}"

definition methods_has :: "string option \<Rightarrow> bool" where
  "methods_has m = (case m of None \<Rightarrow> False | Some v \<Rightarrow> v \<in> methods)"

text \<open>Lines 328 to 332; the flag is the module-level \<^verbatim>\<open>userCancelFlag\<close>.\<close>

definition checkMethod :: "ctx \<Rightarrow> world \<Rightarrow> bool \<times> world" where
  "checkMethod c w =
     (if truthy (ctx_method c) \<and> methods_has (ctx_method c) \<and> userCancelFlag w then (False, w)
      else (True, w\<lparr>userCancelFlag := (ctx_method c \<noteq> None \<and> methods_has (ctx_method c))\<rparr>))"


section \<open>A concrete project\<close>

text \<open>
  A legacy project at the path \<^verbatim>\<open>proj\<close> with a local-settings file and both manifest
  templates, and collaborators that behave in the simplest way; the theorems are
  instantiated on it.
\<close>

definition sample_files :: fsmap where
  "sample_files = map_of
     [([''proj''], Dir),
      ([''proj'', ''.fx''], Dir),
      ([''proj'', ''.fx'', ''configs''], Dir),
      ([''proj'', ''.fx'', ''configs'', ''localSettings.json''], File ''LS''),
      ([''proj'', ''templates''], Dir),
      ([''proj'', ''templates'', ''appPackage''], Dir),
      ([''proj'', ''templates'', ''appPackage'', ''manifest.local.template.json''], File ''LOCAL''),
      ([''proj'', ''templates'', ''appPackage'', ''manifest.remote.template.json''], File ''REMOTE'')]"

definition sample_world :: world where
  "sample_world =
     \<lparr>files = sample_files, telemetry = [], warnings = [], infos = [], opened = [],
      prompts = [], ignoreEntries = [], ctxResult = None, fileList = [], removeMap = [],
      moveFiles = [], userCancelFlag = False\<rparr>"

definition sample_ctx :: ctx where
  "sample_ctx =
     \<lparr>arguments = [ArgInputs \<lparr>projectPath = Some ''proj'', platform = Some CLI\<rparr>, ArgCtx],
      ctx_method = Some ''provisionResources''\<rparr>"

definition sample_tab :: "string option \<Rightarrow> static_tab" where
  "sample_tab eid =
     \<lparr>entityId = eid,
      contentUrl = Some ''https://site/app.aspx%3Fteams%26componentId=abc123%26forceLocale'',
      static_rest = []\<rparr>"

definition sample_manifest :: "string option \<Rightarrow> manifest" where
  "sample_manifest eid =
     \<lparr>staticTabs = Some [sample_tab eid], configurableTabs = None, manifest_rest = []\<rparr>"

definition sample_stringify :: "manifest option \<Rightarrow> string" where
  "sample_stringify mo =
     (case mo of
        None \<Rightarrow> ''null''
      | Some m \<Rightarrow>
          (case staticTabs m of
             None \<Rightarrow> ''{}''
           | Some ts \<Rightarrow> concat (map (\<lambda>t. jsString (contentUrl t) @ '';'') ts)))"

definition sample_env :: "(site \<Rightarrow> error option) \<Rightarrow> bool \<Rightarrow> string option \<Rightarrow> env" where
  "sample_env flt spfx eid =
     \<lparr>isConfigUnifyEnabled = True,
      loadProjectSettings = (\<lambda>i. Ok \<lparr>appName = ''app'', isSPFx = spfx\<rparr>),
      getLocalAppName = (\<lambda>n. n @ ''-local-debug''),
      newEnvConfigData = (\<lambda>n. ''config of '' @ n),
      fault = flt,
      parseManifest = (\<lambda>s. if s = ''REMOTE'' then Some (Some (sample_manifest eid)) else None),
      stringifyManifest = sample_stringify,
      parseJson = (\<lambda>s. if s = ''REMOTE'' then Some (JObj [(''id'', JNum 1)]) else None),
      replaceManifestRegex = (\<lambda>s. s),
      REMOTE_CONTENT_URL = ''https://site/hosted.aspx%3FcomponentId=%s%26id=%s'',
      REMOTE_CONFIGURATION_URL = ''https://site/config.aspx%3FcomponentId=%s%26id=%s'',
      upgradeReport = Some ''report'',
      next_mw = (\<lambda>w. (None, w))\<rparr>"

definition fail_at :: "site \<Rightarrow> site \<Rightarrow> error option" where
  "fail_at s t = (if t = s then Some (IOError ''EIO'') else None)"

definition no_fault :: "site \<Rightarrow> error option" where
  "no_fault t = None"

definition failing_loader_env :: env where
  "failing_loader_env =
     (sample_env no_fault False None)\<lparr>loadProjectSettings := (\<lambda>i. Err (FxError ''PathNotExist''))\<rparr>"

definition double_fault :: "site \<Rightarrow> error option" where
  "double_fault t =
     (if t = CopyToBackup [''proj'', ''templates'', ''appPackage'', ''manifest.local.template.json'']
      then Some (IOError ''EIO'')
      else if t = RestoreCopy [''proj'', ''.backup'', ''.fx'', ''configs'', ''localSettings.json'']
      then Some (IOError ''EACCES'')
      else None)"

section \<open>Notions used in the statements and proofs\<close>

text \<open>The dialog \<^verbatim>\<open>upgrade\<close> shows on every round of its loop.\<close>

definition consentPrompt :: "bool \<Rightarrow> prompt" where
  "consentPrompt showModal =
     \<lparr>prompt_message = ConsolidateMessage, prompt_modal = showModal,
      prompt_items = [upgradeButton, LearnMore]\<rparr>"

text \<open>
  The three legacy files the transformer moves into the backup folder, relative to the
  project path.
\<close>

definition legacyFiles :: "string list list" where
  "legacyFiles =
     [[''.fx'', ''configs'', ''localSettings.json''],
      [''templates'', ''appPackage'', ''manifest.local.template.json''],
      [''templates'', ''appPackage'', ''manifest.remote.template.json'']]"

text \<open>
  \<open>backups_intact p fs0 w\<close>: every entry of the remove map pairs a legacy file with its
  path under the backup folder, the backup holds what the original held in the file system
  \<open>fs0\<close>, and the original is gone; a legacy file that is still there holds what it held
  in \<open>fs0\<close>.
\<close>

definition backups_intact :: "string \<Rightarrow> fsmap \<Rightarrow> world \<Rightarrow> bool" where
  "backups_intact p fs0 w =
     ((\<forall>(b, orig) \<in> set (removeMap w).
         (\<exists>rel \<in> set legacyFiles. orig = p # rel \<and> b = p # backupFolder # rel) \<and>
         files w b = fs0 orig \<and> fs0 orig \<noteq> None \<and> files w orig = None)
      \<and> (\<forall>rel \<in> set legacyFiles.
            files w (p # rel) = None \<or> files w (p # rel) = fs0 (p # rel)))"

text \<open>
  \<open>legacy_accounted p fs0 w\<close>: a legacy file either holds what it held in the file system
  \<open>fs0\<close> or has its entry in the remove map.
\<close>

definition legacy_accounted :: "string \<Rightarrow> fsmap \<Rightarrow> world \<Rightarrow> bool" where
  "legacy_accounted p fs0 w =
     (\<forall>rel \<in> set legacyFiles.
        files w (p # rel) = fs0 (p # rel) \<or>
        (p # backupFolder # rel, p # rel) \<in> set (removeMap w))"

text \<open>The two paths the transformer appends to the file list.\<close>

definition recordedPaths :: "string \<Rightarrow> path set" where
  "recordedPaths p =
     {[p, ''.fx'', ''configs'', ''env.local.json''],
      [p, ''templates'', ''appPackage'', ''template.manifest.json'']}"


section \<open>Claims about the detector and the structural diff\<close>

text \<open>
  C2. The detector returns true exactly when the unified-config flag is enabled, the inputs
  carry a (defined, non-empty) project path, the legacy marker folder \<^verbatim>\<open>.fx\<close> exists
  under it and \<^verbatim>\<open>templates/appPackage/manifest.template.json\<close> does not exist;
  so for inputs whose project has no marker folder it returns false, and when the unified
  manifest template is present it returns false whatever the other conditions are.
\<close>

theorem C2_needConsolidateLocalRemote_iff:
  "(needConsolidateLocalRemote e c w = Inr True) =
     (isConfigUnifyEnabled e \<and>
      (\<exists>i p. ctxInputs c = Some i \<and> projectPath i = Some p \<and> p \<noteq> [] \<and>
         pathExists (files w) [p, ''.fx''] \<and>
         \<not> pathExists (files w) [p, ''templates'', ''appPackage'', ''manifest.template.json'']))
   \<and> (\<forall>i p. ctxInputs c = Some i \<longrightarrow> projectPath i = Some p \<longrightarrow>
         \<not> pathExists (files w) [p, ''.fx''] \<longrightarrow>
         needConsolidateLocalRemote e c w = Inr False)
   \<and> (\<forall>i p. ctxInputs c = Some i \<longrightarrow> projectPath i = Some p \<longrightarrow>
         pathExists (files w) [p, ''templates'', ''appPackage'', ''manifest.template.json''] \<longrightarrow>
         needConsolidateLocalRemote e c w = Inr False)"
proof (intro conjI allI impI)
  show "(needConsolidateLocalRemote e c w = Inr True) =
     (isConfigUnifyEnabled e \<and>
      (\<exists>i p. ctxInputs c = Some i \<and> projectPath i = Some p \<and> p \<noteq> [] \<and>
         pathExists (files w) [p, ''.fx''] \<and>
         \<not> pathExists (files w) [p, ''templates'', ''appPackage'', ''manifest.template.json'']))"
    by (cases "ctxInputs c"; cases "projectPath (the (ctxInputs c))")
       (auto simp: needConsolidateLocalRemote_def truthy_def path_join_def Let_def)
next
  fix i p
  assume "ctxInputs c = Some i" "projectPath i = Some p" "\<not> pathExists (files w) [p, ''.fx'']"
  then show "needConsolidateLocalRemote e c w = Inr False"
    by (simp add: needConsolidateLocalRemote_def truthy_def path_join_def)
next
  fix i p
  assume "ctxInputs c = Some i" "projectPath i = Some p"
    "pathExists (files w) [p, ''templates'', ''appPackage'', ''manifest.template.json'']"
  then show "needConsolidateLocalRemote e c w = Inr False"
    by (simp add: needConsolidateLocalRemote_def truthy_def path_join_def)
qed

theorem C2_needConsolidateLocalRemote_witness:
  "needConsolidateLocalRemote (sample_env no_fault False None) sample_ctx sample_world = Inr True
   \<and> needConsolidateLocalRemote (sample_env no_fault False None) sample_ctx
        (sample_world\<lparr>files := fs_remove sample_files [''proj'', ''.fx'']\<rparr>) = Inr False
   \<and> needConsolidateLocalRemote (sample_env no_fault False None) sample_ctx
        (sample_world\<lparr>files := sample_files
           ([''proj'', ''templates'', ''appPackage'', ''manifest.template.json''] \<mapsto> File ''{}'')\<rparr>)
        = Inr False"
proof -
  let ?e = "sample_env no_fault False None"
  let ?i = "\<lparr>projectPath = Some ''proj'', platform = Some CLI\<rparr>"
  have a: "ctxInputs sample_ctx = Some ?i"
    by (simp add: ctxInputs_def sample_ctx_def argInputs_def)
  have p: "projectPath ?i = Some ''proj''" by simp
  have 1: "needConsolidateLocalRemote ?e sample_ctx sample_world = Inr True"
    using C2_needConsolidateLocalRemote_iff [of ?e sample_ctx sample_world] a
    by (simp add: sample_env_def sample_world_def sample_files_def pathExists_def)
  have 2: "needConsolidateLocalRemote ?e sample_ctx
        (sample_world\<lparr>files := fs_remove sample_files [''proj'', ''.fx'']\<rparr>) = Inr False"
    using C2_needConsolidateLocalRemote_iff
      [of ?e sample_ctx "sample_world\<lparr>files := fs_remove sample_files [''proj'', ''.fx'']\<rparr>"] a p
    by (simp add: pathExists_def fs_remove_def)
  have 3: "needConsolidateLocalRemote ?e sample_ctx
        (sample_world\<lparr>files := sample_files
           ([''proj'', ''templates'', ''appPackage'', ''manifest.template.json''] \<mapsto> File ''{}'')\<rparr>)
        = Inr False"
    using C2_needConsolidateLocalRemote_iff
      [of ?e sample_ctx "sample_world\<lparr>files := sample_files
           ([''proj'', ''templates'', ''appPackage'', ''manifest.template.json''] \<mapsto> File ''{}'')\<rparr>"] a p
    by (simp add: pathExists_def)
  from 1 2 3 show ?thesis by blast
qed

lemma digit_char_inj:
  assumes "d < 10" "d' < 10" "digit_char d = digit_char d'"
  shows "d = d'"
proof -
  have "distinct ''0123456789''" by simp
  moreover have "d < length ''0123456789''" "d' < length ''0123456789''"
    using assms by simp_all
  ultimately show ?thesis
    using assms(3) unfolding digit_char_def by (simp only: nth_eq_iff_index_eq)
qed

lemma digit_char_digit: "d < 10 \<Longrightarrow> digit_char d \<in> set ''0123456789''"
  unfolding digit_char_def by (rule nth_mem) simp

lemma string_of_nat_nonempty: "string_of_nat n \<noteq> []"
  by (subst string_of_nat.simps) simp

lemma string_of_nat_digits: "set (string_of_nat n) \<subseteq> set ''0123456789''"
proof (induction n rule: string_of_nat.induct)
  case (1 n)
  show ?case
  proof (cases "n < 10")
    case True
    then show ?thesis
      using digit_char_digit [of n] by (subst string_of_nat.simps) simp
  next
    case False
    moreover have "digit_char (n mod 10) \<in> set ''0123456789''"
      by (rule digit_char_digit) simp
    ultimately show ?thesis
      using "1.IH" by (subst string_of_nat.simps) simp
  qed
qed

lemma string_of_nat_not_ignored: "string_of_nat n \<notin> ignoreKeys"
proof
  assume "string_of_nat n \<in> ignoreKeys"
  then have "hd (string_of_nat n) \<in> {CHR ''n'', CHR ''c'', CHR ''m'', CHR ''$'', CHR ''d''}"
    by (auto simp: ignoreKeys_def)
  moreover have "hd (string_of_nat n) \<in> set ''0123456789''"
    using string_of_nat_digits [of n] string_of_nat_nonempty [of n] hd_in_set by blast
  ultimately show False by auto
qed

lemma string_of_nat_inj: "string_of_nat m = string_of_nat n \<Longrightarrow> m = n"
proof (induction m arbitrary: n rule: string_of_nat.induct)
  case (1 m)
  show ?case
  proof (cases "m < 10")
    case small_m: True
    show ?thesis
    proof (cases "n < 10")
      case True
      with small_m "1.prems" show ?thesis
        by (simp add: string_of_nat.simps [of m] string_of_nat.simps [of n] digit_char_inj)
    next
      case False
      with small_m "1.prems" string_of_nat_nonempty [of "n div 10"] show ?thesis
        by (simp add: string_of_nat.simps [of m] string_of_nat.simps [of n])
    qed
  next
    case big_m: False
    show ?thesis
    proof (cases "n < 10")
      case True
      with big_m "1.prems" string_of_nat_nonempty [of "m div 10"] show ?thesis
        by (simp add: string_of_nat.simps [of m] string_of_nat.simps [of n])
    next
      case False
      with big_m "1.prems"
      have eq: "string_of_nat (m div 10) = string_of_nat (n div 10)"
        and dg: "digit_char (m mod 10) = digit_char (n mod 10)"
        by (simp_all add: string_of_nat.simps [of m] string_of_nat.simps [of n])
      from "1.IH" [OF big_m eq] have "m div 10 = n div 10" .
      moreover from dg have "m mod 10 = n mod 10"
        by (intro digit_char_inj) simp_all
      ultimately show ?thesis by (metis div_mult_mod_eq)
    qed
  qed
qed

lemma index_keys_distinct: "distinct (map string_of_nat [0..<n])"
  by (simp add: distinct_map inj_on_def) (blast dest: string_of_nat_inj)

lemma object_keys_distinct: "object_keys a = Some ks \<Longrightarrow> distinct ks"
  by (cases a) (auto simp: index_keys_distinct)

lemma get_prop_index:
  "i < length xs \<Longrightarrow> get_prop (JArr xs) (string_of_nat i) = Some (xs ! i)"
  using map_of_zip_nth [of "map string_of_nat [0..<length xs]" xs i]
  by (simp add: index_keys_distinct)

lemma scalar_not_object: "scalar v \<Longrightarrow> \<not> isObject (Some v)"
  by (cases v) simp_all

lemma diff_unfold:
  "(diff a b = Some True) =
     (\<exists>keys bKeys. object_keys a = Some keys \<and> object_keys b = Some bKeys \<and>
        length keys = length bKeys \<and>
        (\<forall>key \<in> set keys - ignoreKeys.
           if isObject (get_prop a key) \<and> isObject (get_prop b key)
           then diff (the (get_prop a key)) (the (get_prop b key)) = Some True
           else get_prop a key = get_prop b key))"
  by (subst diff.simps) (auto simp: list_all_iff Let_def split: option.splits)

lemma diff_reordered_scalars:
  assumes "length xs = length ys" "xs \<noteq> ys" "list_all scalar xs"
  shows "diff (JArr xs) (JArr ys) = Some False"
proof -
  from assms(1,2) obtain i where i: "i < length xs" "xs ! i \<noteq> ys ! i"
    using nth_equalityI by blast
  let ?k = "string_of_nat i"
  have k: "?k \<in> set (map string_of_nat [0..<length xs])" using i by simp
  have "\<not> isObject (get_prop (JArr xs) ?k)"
    using i assms(3)
    by (simp add: get_prop_index scalar_not_object list_all_length del: get_prop.simps)
  moreover have "get_prop (JArr xs) ?k \<noteq> get_prop (JArr ys) ?k"
    using i assms(1) by (simp add: get_prop_index del: get_prop.simps)
  ultimately have "\<not> list_all
          (\<lambda>key. key \<in> ignoreKeys \<or>
             (let aValue = get_prop (JArr xs) key; bValue = get_prop (JArr ys) key in
              if isObject aValue \<and> isObject bValue
              then diff (the aValue) (the bValue) = Some True
              else aValue = bValue))
          (map string_of_nat [0..<length xs])"
    using k string_of_nat_not_ignored [of i] unfolding list_all_iff Let_def
    by (metis (no_types, lifting))
  then show ?thesis
    using assms(1) by (subst diff.simps) simp
qed

text \<open>
  C3 as stated fails twice. The comparison checks the number of keys, not the key set: an
  object whose only key is the ignored \<^verbatim>\<open>name\<close> is equivalent to one whose only key
  is \<^verbatim>\<open>other\<close>. And swapping two distinct array elements that differ only in an
  ignored key leaves the trees equivalent.
\<close>

theorem C3_diff_counterexample:
  "diff (JObj [(''name'', JStr ''x'')]) (JObj [(''other'', JStr ''y'')]) = Some True
   \<and> set (the (object_keys (JObj [(''name'', JStr ''x'')])))
       \<noteq> set (the (object_keys (JObj [(''other'', JStr ''y'')])))
   \<and> JObj [(''name'', JStr ''a'')] \<noteq> JObj [(''name'', JStr ''b'')]
   \<and> diff (JArr [JObj [(''name'', JStr ''a'')], JObj [(''name'', JStr ''b'')]])
          (JArr [JObj [(''name'', JStr ''b'')], JObj [(''name'', JStr ''a'')]]) = Some True"
  by (simp add: diff.simps ignoreKeys_def string_of_nat.simps digit_char_def upt_rec)

text \<open>
  C3, amended. The structural diff returns true exactly when, at every level it compares,
  the two values have the same number of keys and, for every key of the first value that
  is not in the ignored set, the values read under that key from both sides are either
  both objects that are themselves equivalent or are strictly equal. Arrays are compared
  as index-keyed objects: two arrays of scalars of the same length that differ at some
  index, in particular a reordering that changes an array of scalars, are not equivalent.
\<close>

theorem C3_diff_characterisation:
  "((diff a b = Some True) =
      (\<exists>keys bKeys. object_keys a = Some keys \<and> object_keys b = Some bKeys \<and>
         distinct keys \<and> distinct bKeys \<and> length keys = length bKeys \<and>
         (\<forall>key \<in> set keys - ignoreKeys.
            if isObject (get_prop a key) \<and> isObject (get_prop b key)
            then diff (the (get_prop a key)) (the (get_prop b key)) = Some True
            else get_prop a key = get_prop b key)))
   \<and> (length xs = length ys \<longrightarrow> xs \<noteq> ys \<longrightarrow> list_all scalar xs \<longrightarrow>
        diff (JArr xs) (JArr ys) = Some False)"
proof (intro conjI impI)
  show "(diff a b = Some True) =
      (\<exists>keys bKeys. object_keys a = Some keys \<and> object_keys b = Some bKeys \<and>
         distinct keys \<and> distinct bKeys \<and> length keys = length bKeys \<and>
         (\<forall>key \<in> set keys - ignoreKeys.
            if isObject (get_prop a key) \<and> isObject (get_prop b key)
            then diff (the (get_prop a key)) (the (get_prop b key)) = Some True
            else get_prop a key = get_prop b key))"
    unfolding diff_unfold [of a b] using object_keys_distinct by blast
next
  assume "length xs = length ys" "xs \<noteq> ys" "list_all scalar xs"
  then show "diff (JArr xs) (JArr ys) = Some False"
    by (rule diff_reordered_scalars)
qed

theorem C3_diff_witness:
  "diff (JArr [JNum 1, JNum 2]) (JArr [JNum 2, JNum 1]) = Some False
   \<and> (\<exists>keys bKeys.
        object_keys (JObj [(''id'', JNum 1), (''description'', JStr ''x'')]) = Some keys \<and>
        object_keys (JObj [(''description'', JStr ''y''), (''id'', JNum 1)]) = Some bKeys \<and>
        distinct keys \<and> distinct bKeys \<and> length keys = length bKeys)"
proof -
  have eq: "diff (JObj [(''id'', JNum 1), (''description'', JStr ''x'')])
                 (JObj [(''description'', JStr ''y''), (''id'', JNum 1)]) = Some True"
    by (simp add: diff.simps ignoreKeys_def)
  have len: "length [JNum 1, JNum 2] = length [JNum 2, JNum 1]" by simp
  have ne: "[JNum 1, JNum 2] \<noteq> [JNum 2, JNum 1]" by simp
  have sc: "list_all scalar [JNum 1, JNum 2]" by simp
  note inst = C3_diff_characterisation
    [of "JObj [(''id'', JNum 1), (''description'', JStr ''x'')]"
        "JObj [(''description'', JStr ''y''), (''id'', JNum 1)]"
        "[JNum 1, JNum 2]" "[JNum 2, JNum 1]"]
  from inst len ne sc have "diff (JArr [JNum 1, JNum 2]) (JArr [JNum 2, JNum 1]) = Some False"
    by blast
  moreover from inst eq have "\<exists>keys bKeys.
        object_keys (JObj [(''id'', JNum 1), (''description'', JStr ''x'')]) = Some keys \<and>
        object_keys (JObj [(''description'', JStr ''y''), (''id'', JNum 1)]) = Some bKeys \<and>
        distinct keys \<and> distinct bKeys \<and> length keys = length bKeys"
    by blast
  ultimately show ?thesis by blast
qed


lemma methods_has_truthy: "methods_has m \<Longrightarrow> truthy m"
  by (cases m) (auto simp: methods_has_def truthy_def methods_def)

section \<open>Claims about the latch, the loader failure and the consent loop\<close>

text \<open>
  C8. Two consecutive intercepted calls whose methods are both in the allow-list
  \<^verbatim>\<open>getProjectConfig\<close>, \<^verbatim>\<open>checkPermission\<close>: whatever the latch was before the
  first call, \<^verbatim>\<open>checkMethod\<close> returns false on the second, so the consent prompt is
  not fired for it.
\<close>

theorem C8_checkMethod_second_call:
  assumes "methods_has (ctx_method c1)" "methods_has (ctx_method c2)"
  shows "fst (checkMethod c2 (snd (checkMethod c1 w))) = False"
proof -
  have "truthy (ctx_method c1)" "truthy (ctx_method c2)"
    using assms by (simp_all add: methods_has_truthy)
  moreover have "ctx_method c1 \<noteq> None"
    using assms(1) by (cases "ctx_method c1") (simp_all add: methods_has_def)
  ultimately show ?thesis
    using assms by (simp add: checkMethod_def)
qed

theorem C8_checkMethod_witness:
  "fst (checkMethod \<lparr>arguments = [], ctx_method = Some ''checkPermission''\<rparr>
         (snd (checkMethod \<lparr>arguments = [], ctx_method = Some ''getProjectConfig''\<rparr> sample_world)))
     = False"
proof -
  have a: "methods_has (ctx_method \<lparr>arguments = [], ctx_method = Some ''getProjectConfig''\<rparr>)"
    by (simp add: methods_has_def methods_def)
  have b: "methods_has (ctx_method \<lparr>arguments = [], ctx_method = Some ''checkPermission''\<rparr>)"
    by (simp add: methods_has_def methods_def)
  show ?thesis by (rule C8_checkMethod_second_call [OF a b])
qed

text \<open>
  C10. If loading the project settings fails, \<^verbatim>\<open>consolidateLocalRemote\<close> records the
  load error in the context result and returns false; the file system is exactly as
  before (no environment config, no backup folder, nothing moved or deleted), and the file
  list and the remove map are empty.
\<close>

theorem C10_load_failure:
  assumes "ctxInputs c = Some i" "loadProjectSettings e i = Err x"
  shows "fst (consolidateLocalRemote e c w) = Inr False
       \<and> ctxResult (snd (consolidateLocalRemote e c w)) = Some x
       \<and> files (snd (consolidateLocalRemote e c w)) = files w
       \<and> fileList (snd (consolidateLocalRemote e c w)) = []
       \<and> removeMap (snd (consolidateLocalRemote e c w)) = []
       \<and> telemetry (snd (consolidateLocalRemote e c w)) =
           telemetry w @ [Event ProjectConsolidateUpgradeStart]"
  using assms by (simp add: consolidateLocalRemote_def)

theorem C10_load_failure_witness:
  "fst (consolidateLocalRemote failing_loader_env sample_ctx sample_world) = Inr False
   \<and> ctxResult (snd (consolidateLocalRemote failing_loader_env sample_ctx sample_world))
       = Some (FxError ''PathNotExist'')
   \<and> files (snd (consolidateLocalRemote failing_loader_env sample_ctx sample_world)) = sample_files
   \<and> fileList (snd (consolidateLocalRemote failing_loader_env sample_ctx sample_world)) = []
   \<and> removeMap (snd (consolidateLocalRemote failing_loader_env sample_ctx sample_world)) = []"
proof -
  have a: "ctxInputs sample_ctx = Some \<lparr>projectPath = Some ''proj'', platform = Some CLI\<rparr>"
    by (simp add: ctxInputs_def sample_ctx_def argInputs_def)
  have b: "loadProjectSettings failing_loader_env \<lparr>projectPath = Some ''proj'', platform = Some CLI\<rparr>
             = Err (FxError ''PathNotExist'')"
    by (simp add: failing_loader_env_def sample_env_def)
  show ?thesis
    using C10_load_failure [OF a b, of sample_world] by (simp add: sample_world_def)
qed

lemma promptLoop_learn_more:
  assumes "(case a of Ok v \<Rightarrow> v | Err x \<Rightarrow> None) \<noteq> Some LearnMore"
  shows "promptLoop m (replicate n (Ok (Some LearnMore)) @ a # rest) w =
           Some (case a of Ok v \<Rightarrow> v | Err x \<Rightarrow> None,
                 w\<lparr>prompts := prompts w @ replicate (Suc n) (consentPrompt m),
                   opened := opened w @ replicate n LearnMoreLink\<rparr>)"
proof (induction n arbitrary: w)
  case 0
  show ?case using assms by (simp add: consentPrompt_def)
next
  case (Suc n)
  show ?case
    by (simp add: Suc.IH consentPrompt_def replicate_append_same)
qed

text \<open>
  C5. In the consent loop every answer \<^verbatim>\<open>Learn More\<close> opens the documentation link
  and shows the dialog again. After \<open>n\<close> such answers, any answer that is neither
  \<^verbatim>\<open>Learn More\<close> nor \<^verbatim>\<open>Upgrade\<close> (a dismissal, no value, an error result)
  ends the loop: the link was opened exactly \<open>n\<close> times, the dialog was shown
  \<open>n + 1\<close> times, the context result is the consolidate-cancellation error, the
  guidance printed depends on the platform, and the file system is untouched.
\<close>

theorem C5_learn_more_then_cancel:
  assumes "ctxInputs c = Some i"
    and "answer = (case a of Ok v \<Rightarrow> v | Err x \<Rightarrow> None)"
    and "answer \<noteq> Some LearnMore" "answer \<noteq> Some upgradeButton"
  shows "\<exists>w'. upgrade e c m (replicate n (Ok (Some LearnMore)) @ a # rest) w = Some (None, w')
       \<and> opened w' = opened w @ replicate n LearnMoreLink
       \<and> prompts w' = prompts w @ replicate (Suc n) (consentPrompt m)
       \<and> files w' = files w
       \<and> ctxResult w' = Some ConsolidateCanceledError
       \<and> telemetry w' = telemetry w @ [StatusEvent ProjectConsolidateNotification StatusCancel]
       \<and> warnings w' = warnings w @ UpgradeCancelled #
            (if platform i = Some VSCode then [NoticeVSCode] else [NoticeCLI, NoticeCLIOldVersion])"
  using assms promptLoop_learn_more [of a m n rest w]
  by (simp add: upgrade_def outputCancelMessage_def)

theorem C5_learn_more_twice_then_cancel_witness:
  "\<exists>w'. upgrade (sample_env no_fault False None) sample_ctx True
          [Ok (Some ''Learn More''), Ok (Some ''Learn More''), Ok None] sample_world = Some (None, w')
       \<and> opened w' = [LearnMoreLink, LearnMoreLink]
       \<and> length (prompts w') = 3
       \<and> files w' = sample_files
       \<and> ctxResult w' = Some ConsolidateCanceledError"
proof -
  have a: "ctxInputs sample_ctx = Some \<lparr>projectPath = Some ''proj'', platform = Some CLI\<rparr>"
    by (simp add: ctxInputs_def sample_ctx_def argInputs_def)
  have b: "None = (case (Ok None :: string option result) of Ok v \<Rightarrow> v | Err x \<Rightarrow> None)" by simp
  have c: "None \<noteq> Some LearnMore" "None \<noteq> Some upgradeButton" by simp_all
  from C5_learn_more_then_cancel [OF a b c, of "sample_env no_fault False None" True 2 "[]" sample_world]
  show ?thesis
    by (auto simp: LearnMore_def sample_world_def numeral_2_eq_2)
qed


section \<open>Reasoning about runs\<close>

lemmas model_defs = consolidateLocalRemote_def
     ctxInputs_def argInputs_def transform_def transform_steps_def addLocalEnv_def
     addConsolidateManifest_def backupAndRemove_def
     compareLocalAndRemoteManifest_def compareBody_def postConsolidate_def updateGitIgnore_def
     rollback_def io_copy_def io_remove_def io_readFile_def io_writeFile_def io_copyFile_def
     sendTelemetryEvent_def writeEnvConfig_def envConfigPath_def getLocalEnvName_def
     getManifestTemplatePath_def isSPFxProject_def backupFolder_def path_join_def pathExists_def
     fs_copy_def fs_remove_def generateUpgradeReport_def upgradeReportName_def
     addSPFxManifest_def Let_def

lemmas sample_defs = sample_env_def sample_ctx_def sample_world_def sample_files_def fail_at_def
  no_fault_def sample_manifest_def sample_tab_def sample_stringify_def


lemma run_steps_append:
  "run_steps (fs @ gs) w =
     (case run_steps fs w of (None, w') \<Rightarrow> run_steps gs w' | (Some x, w') \<Rightarrow> (Some x, w'))"
  by (induction fs arbitrary: w) (auto split: prod.splits option.splits)

lemma run_steps_take_invariant:
  assumes "\<And>f w r w'. f \<in> set fs \<Longrightarrow> I w \<Longrightarrow> f w = (r, w') \<Longrightarrow> I w'"
    and "I w" and "run_steps (take k fs) w = (r, w')"
  shows "I w'"
  using assms
proof (induction fs arbitrary: k w)
  case Nil
  then show ?case by simp
next
  case (Cons f fs)
  show ?case
  proof (cases k)
    case 0
    with Cons.prems show ?thesis by simp
  next
    case (Suc j)
    obtain r1 w1 where f: "f w = (r1, w1)" by (cases "f w")
    have I1: "I w1" using Cons.prems(1) [of f w r1 w1] Cons.prems(2) f by simp
    show ?thesis
    proof (cases r1)
      case None
      with Cons.prems(3) Suc f have run: "run_steps (take j fs) w1 = (r, w')" by simp
      have later: "\<And>g v r2 v'. g \<in> set fs \<Longrightarrow> I v \<Longrightarrow> g v = (r2, v') \<Longrightarrow> I v'"
        using Cons.prems(1) by (meson list.set_intros(2))
      show ?thesis
        using Cons.IH [OF later I1 run] by simp
    next
      case (Some x)
      with Cons.prems(3) Suc f have "w' = w1" by simp
      with I1 show ?thesis by simp
    qed
  qed
qed

lemma run_steps_invariant:
  assumes "\<And>f w r w'. f \<in> set fs \<Longrightarrow> I w \<Longrightarrow> f w = (r, w') \<Longrightarrow> I w'"
    and "I w" and "run_steps fs w = (r, w')"
  shows "I w'"
  using run_steps_take_invariant [of fs I w "length fs" r w'] assms by simp

subsection \<open>What each statement leaves alone\<close>

lemma sendTelemetryEvent_frame:
  "sendTelemetryEvent ev w = (r, w') \<Longrightarrow>
     files w' = files w \<and> removeMap w' = removeMap w \<and> fileList w' = fileList w"
  by (auto simp: sendTelemetryEvent_def)

lemma addLocalEnv_frame:
  assumes "addLocalEnv e root ps w = (r, w')"
  shows "removeMap w' = removeMap w
       \<and> (q \<noteq> envConfigPath root getLocalEnvName \<longrightarrow> files w' q = files w q)"
  using assms
  by (auto simp: addLocalEnv_def sendTelemetryEvent_def writeEnvConfig_def
           split: option.splits prod.splits result.splits)

lemma addSPFxManifest_frame:
  assumes "addSPFxManifest e root remote w = (r, w')"
  shows "removeMap w' = removeMap w
       \<and> (q \<noteq> getManifestTemplatePath root \<longrightarrow> files w' q = files w q)"
  using assms
  by (auto simp: addSPFxManifest_def io_writeFile_def
           split: option.splits prod.splits sum.splits if_splits)

lemma addConsolidateManifest_frame:
  assumes "addConsolidateManifest e root ps w = (r, w')"
  shows "removeMap w' = removeMap w
       \<and> (q \<noteq> getManifestTemplatePath root \<longrightarrow> files w' q = files w q)"
proof -
  let ?remote = "path_join root [''templates'', ''appPackage'', ''manifest.remote.template.json'']"
  have copy: "\<And>a r1 w1. io_copyFile e CopyManifestTemplate ?remote (getManifestTemplatePath root) a = (r1, w1)
      \<Longrightarrow> removeMap w1 = removeMap a \<and> (q \<noteq> getManifestTemplatePath root \<longrightarrow> files w1 q = files a q)"
    by (auto simp: io_copyFile_def split: option.splits node.splits if_splits)
  show ?thesis
    using assms
    by (auto simp: addConsolidateManifest_def Let_def sendTelemetryEvent_def
             split: if_splits prod.splits option.splits
             dest!: copy addSPFxManifest_frame [where q = q])
qed

lemma compare_frame:
  assumes "compareLocalAndRemoteManifest e l r w = (res, w')"
  shows "res = None \<and> files w' = files w \<and> removeMap w' = removeMap w \<and> fileList w' = fileList w
       \<and> moveFiles w' = moveFiles w \<and> ctxResult w' = ctxResult w \<and> warnings w' = warnings w"
  using assms
  by (auto simp: compareLocalAndRemoteManifest_def compareBody_def
           split: sum.splits option.splits bool.splits)

lemma postConsolidate_frame:
  "postConsolidate root i w = (r, w') \<Longrightarrow>
     r = None \<and> files w' = files w \<and> removeMap w' = removeMap w \<and> fileList w' = fileList w"
  by (auto simp: postConsolidate_def updateGitIgnore_def Let_def)

lemma set_map_set: "set (map_set k v m) \<subseteq> insert (k, v) (set m)"
  by (induction m) (auto split: if_splits)


subsection \<open>The backups stay intact\<close>

lemma backups_intact_kept:
  assumes "backups_intact p fs0 w" "removeMap w' = removeMap w"
    and "\<And>rel. rel \<in> set legacyFiles \<Longrightarrow>
           files w' (p # rel) = files w (p # rel) \<and>
           files w' (p # backupFolder # rel) = files w (p # backupFolder # rel)"
  shows "backups_intact p fs0 w'"
  using assms unfolding backups_intact_def by fastforce

lemma legacy_not_env_config:
  "rel \<in> set legacyFiles \<Longrightarrow>
     p # rel \<noteq> envConfigPath [p] getLocalEnvName \<and>
     p # backupFolder # rel \<noteq> envConfigPath [p] getLocalEnvName \<and>
     p # rel \<noteq> getManifestTemplatePath [p] \<and>
     p # backupFolder # rel \<noteq> getManifestTemplatePath [p]"
  by (auto simp: legacyFiles_def envConfigPath_def getLocalEnvName_def path_join_def
                 getManifestTemplatePath_def backupFolder_def)

lemma legacy_shape:
  "rel \<in> set legacyFiles \<Longrightarrow> \<exists>a b c. rel = [a, b, c] \<and> a \<noteq> backupFolder"
  by (auto simp: legacyFiles_def backupFolder_def)

lemma fs_copy_backup_others:
  assumes "rel = [a, b, c]" "a \<noteq> backupFolder" "rel0 = [a0, b0, c0]"
  shows "fs_copy fs (p # rel0) (p # backupFolder # rel0) (p # rel) = fs (p # rel) \<and>
         (rel \<noteq> rel0 \<longrightarrow>
            fs_copy fs (p # rel0) (p # backupFolder # rel0) (p # backupFolder # rel) =
            fs (p # backupFolder # rel))"
  using assms by (auto simp: fs_copy_def)

lemma fs_remove_original_others:
  assumes "rel = [a, b, c]" "rel0 = [a0, b0, c0]" "a0 \<noteq> backupFolder"
  shows "fs_remove fs (p # rel0) (p # backupFolder # rel) = fs (p # backupFolder # rel) \<and>
         (rel \<noteq> rel0 \<longrightarrow> fs_remove fs (p # rel0) (p # rel) = fs (p # rel)) \<and>
         fs_remove fs (p # rel0) (p # rel0) = None"
  using assms by (auto simp: fs_remove_def)

lemma backupAndRemove_intact:
  assumes "rel0 \<in> set legacyFiles" "backups_intact p fs0 w"
    and "backupAndRemove e [p] rel0 w = (r, w')"
  shows "backups_intact p fs0 w'"
proof (cases "pathExists (files w) (p # rel0)")
  case False
  with assms show ?thesis by (simp add: backupAndRemove_def path_join_def Let_def)
next
  case True
  then have same: "files w (p # rel0) = fs0 (p # rel0)" and ex: "fs0 (p # rel0) \<noteq> None"
    using assms(1,2) by (auto simp: backups_intact_def pathExists_def)
  have notin: "\<And>b. (b, p # rel0) \<notin> set (removeMap w)"
    using True assms(2) by (auto simp: backups_intact_def pathExists_def)
  show ?thesis
  proof (cases "fault e (CopyToBackup (p # rel0))")
    case (Some x)
    with True assms show ?thesis
      by (simp add: backupAndRemove_def path_join_def io_copy_def Let_def)
  next
    case None
    let ?fs1 = "fs_copy (files w) (p # rel0) (p # backupFolder # rel0)"
    have copied: "?fs1 (p # backupFolder # rel0) = fs0 (p # rel0)"
      using same ex by (auto simp: fs_copy_def)
    have others: "\<And>rel. rel \<in> set legacyFiles \<Longrightarrow>
        ?fs1 (p # rel) = files w (p # rel) \<and>
        (rel \<noteq> rel0 \<longrightarrow> ?fs1 (p # backupFolder # rel) = files w (p # backupFolder # rel))"
      using legacy_shape [OF assms(1)] legacy_shape fs_copy_backup_others by metis
    show ?thesis
    proof (cases "fault e (RemoveOriginal (p # rel0))")
      case (Some x)
      with None True assms(3) have w': "removeMap w' = removeMap w" "files w' = ?fs1"
        by (auto simp: backupAndRemove_def path_join_def io_copy_def io_remove_def Let_def)
      show ?thesis
        unfolding backups_intact_def
      proof (intro conjI ballI)
        fix item assume "item \<in> set (removeMap w')"
        then have item: "item \<in> set (removeMap w)" using w' by simp
        obtain b orig where bo: "item = (b, orig)" by (cases item)
        from item bo assms(2) obtain rel where rel: "rel \<in> set legacyFiles" "orig = p # rel"
          "b = p # backupFolder # rel" "files w b = fs0 orig" "fs0 orig \<noteq> None" "files w orig = None"
          by (auto simp: backups_intact_def)
        have "rel \<noteq> rel0" using rel(2) bo item notin by auto
        with others [OF rel(1)] rel w' bo
        show "case item of (b, orig) \<Rightarrow>
            (\<exists>rel \<in> set legacyFiles. orig = p # rel \<and> b = p # backupFolder # rel) \<and>
            files w' b = fs0 orig \<and> fs0 orig \<noteq> None \<and> files w' orig = None"
          by auto
      next
        fix rel assume "rel \<in> set legacyFiles"
        with others [of rel] assms(2) w'
        show "files w' (p # rel) = None \<or> files w' (p # rel) = fs0 (p # rel)"
          by (auto simp: backups_intact_def)
      qed
    next
      case rm: None
      let ?fs2 = "fs_remove ?fs1 (p # rel0)"
      from rm None True assms(3)
      have w': "removeMap w' = map_set (p # backupFolder # rel0) (p # rel0) (removeMap w)"
        "files w' = ?fs2"
        by (auto simp: backupAndRemove_def path_join_def io_copy_def io_remove_def Let_def)
      have removed: "\<And>rel. rel \<in> set legacyFiles \<Longrightarrow>
          ?fs2 (p # backupFolder # rel) = ?fs1 (p # backupFolder # rel) \<and>
          (rel \<noteq> rel0 \<longrightarrow> ?fs2 (p # rel) = ?fs1 (p # rel)) \<and> ?fs2 (p # rel0) = None"
        using legacy_shape [OF assms(1)] legacy_shape fs_remove_original_others by metis
      show ?thesis
        unfolding backups_intact_def
      proof (intro conjI ballI)
        fix item assume "item \<in> set (removeMap w')"
        then have item: "item = (p # backupFolder # rel0, p # rel0) \<or> item \<in> set (removeMap w)"
          using w' set_map_set by fastforce
        obtain b orig where bo: "item = (b, orig)" by (cases item)
        show "case item of (b, orig) \<Rightarrow>
            (\<exists>rel \<in> set legacyFiles. orig = p # rel \<and> b = p # backupFolder # rel) \<and>
            files w' b = fs0 orig \<and> fs0 orig \<noteq> None \<and> files w' orig = None"
        proof (cases "item = (p # backupFolder # rel0, p # rel0)")
          case True
          with assms(1) copied ex removed [OF assms(1)] w' show ?thesis by auto
        next
          case False
          with item have old: "item \<in> set (removeMap w)" by simp
          from old bo assms(2) obtain rel where rel: "rel \<in> set legacyFiles" "orig = p # rel"
            "b = p # backupFolder # rel" "files w b = fs0 orig" "fs0 orig \<noteq> None"
            "files w orig = None"
            by (auto simp: backups_intact_def)
          have ne: "rel \<noteq> rel0" using rel(2) bo old notin by auto
          with others [OF rel(1)] removed [OF rel(1)] rel w' bo show ?thesis by auto
        qed
      next
        fix rel assume rel: "rel \<in> set legacyFiles"
        show "files w' (p # rel) = None \<or> files w' (p # rel) = fs0 (p # rel)"
        proof (cases "rel = rel0")
          case True
          with removed [OF rel] w' show ?thesis by simp
        next
          case False
          with others [OF rel] removed [OF rel] assms(2) rel w' show ?thesis
            by (auto simp: backups_intact_def)
        qed
      qed
    qed
  qed
qed


lemma transform_step_intact:
  assumes "f \<in> set (transform_steps e [p] ps i)" "backups_intact p fs0 w" "f w = (r, w')"
  shows "backups_intact p fs0 w'"
proof -
  let ?local = "[p, ''templates'', ''appPackage'', ''manifest.local.template.json'']"
  let ?remote = "[p, ''templates'', ''appPackage'', ''manifest.remote.template.json'']"
  from assms(1) consider
      (env) "f = addLocalEnv e [p] ps"
    | (manifest) "f = addConsolidateManifest e [p] ps"
    | (event) ev where "f = sendTelemetryEvent ev"
    | (backup) rel where "rel \<in> set legacyFiles" "f = backupAndRemove e [p] rel"
    | (compare) "f = (\<lambda>w. if pathExists (files w) ?local \<and> pathExists (files w) ?remote
                          then compareLocalAndRemoteManifest e ?local ?remote w else (None, w))"
    | (post) "f = postConsolidate [p] i"
    unfolding transform_steps_def Let_def path_join_def legacyFiles_def
    by (simp only: list.set insert_iff empty_iff append_Cons append_Nil) blast
  then show ?thesis
  proof cases
    case env
    with assms(3) addLocalEnv_frame [of e "[p]" ps w r w'] legacy_not_env_config [of _ p]
    show ?thesis by (intro backups_intact_kept [OF assms(2)]) auto
  next
    case manifest
    with assms(3) addConsolidateManifest_frame [of e "[p]" ps w r w'] legacy_not_env_config [of _ p]
    show ?thesis by (intro backups_intact_kept [OF assms(2)]) auto
  next
    case event
    with assms(3) sendTelemetryEvent_frame [of ev w r w']
    show ?thesis by (intro backups_intact_kept [OF assms(2)]) auto
  next
    case backup
    with assms(2,3) show ?thesis by (auto intro: backupAndRemove_intact)
  next
    case compare
    with assms(3) compare_frame [of e ?local ?remote w r w']
    show ?thesis by (intro backups_intact_kept [OF assms(2)]) (auto split: if_splits)
  next
    case post
    with assms(3) postConsolidate_frame [of "[p]" i w r w']
    show ?thesis by (intro backups_intact_kept [OF assms(2)]) auto
  qed
qed

lemma transform_prefix_intact:
  assumes "removeMap w = []" "run_steps (take k (transform_steps e [p] ps i)) w = (r, w')"
  shows "backups_intact p (files w) w'"
proof -
  have "backups_intact p (files w) w"
    using assms(1) by (simp add: backups_intact_def)
  then show ?thesis
    using run_steps_take_invariant
      [of "transform_steps e [p] ps i" "backups_intact p (files w)" w k r w']
      transform_step_intact assms(2)
    by blast
qed


subsection \<open>The paths in the file list\<close>

lemma backupAndRemove_fileList:
  "backupAndRemove e root rel w = (r, w') \<Longrightarrow> fileList w' = fileList w"
  by (auto simp: backupAndRemove_def Let_def io_copy_def io_remove_def
           split: if_splits option.splits)

lemma addLocalEnv_fileList:
  "addLocalEnv e [p] ps w = (r, w') \<Longrightarrow> set (fileList w') \<subseteq> set (fileList w) \<union> recordedPaths p"
  by (auto simp: addLocalEnv_def sendTelemetryEvent_def writeEnvConfig_def recordedPaths_def
                 path_join_def
           split: option.splits prod.splits result.splits)

lemma addSPFxManifest_fileList:
  "addSPFxManifest e root remote w = (r, w') \<Longrightarrow> fileList w' = fileList w"
  by (auto simp: addSPFxManifest_def io_writeFile_def
           split: option.splits prod.splits sum.splits if_splits)

lemma io_copyFile_fileList:
  "io_copyFile e s src dst w = (r, w') \<Longrightarrow> fileList w' = fileList w"
  by (auto simp: io_copyFile_def split: option.splits node.splits if_splits)

lemma addConsolidateManifest_fileList:
  "addConsolidateManifest e [p] ps w = (r, w') \<Longrightarrow>
     set (fileList w') \<subseteq> set (fileList w) \<union> recordedPaths p"
  by (auto simp: addConsolidateManifest_def Let_def sendTelemetryEvent_def recordedPaths_def
                 path_join_def
           split: if_splits prod.splits option.splits
           dest!: io_copyFile_fileList addSPFxManifest_fileList)

lemma transform_step_fileList:
  assumes "f \<in> set (transform_steps e [p] ps i)" "set (fileList w) \<subseteq> recordedPaths p"
    and "f w = (r, w')"
  shows "set (fileList w') \<subseteq> recordedPaths p"
proof -
  let ?local = "[p, ''templates'', ''appPackage'', ''manifest.local.template.json'']"
  let ?remote = "[p, ''templates'', ''appPackage'', ''manifest.remote.template.json'']"
  from assms(1) consider
      (env) "f = addLocalEnv e [p] ps"
    | (manifest) "f = addConsolidateManifest e [p] ps"
    | (event) ev where "f = sendTelemetryEvent ev"
    | (backup) rel where "f = backupAndRemove e [p] rel"
    | (compare) "f = (\<lambda>w. if pathExists (files w) ?local \<and> pathExists (files w) ?remote
                          then compareLocalAndRemoteManifest e ?local ?remote w else (None, w))"
    | (post) "f = postConsolidate [p] i"
    unfolding transform_steps_def Let_def path_join_def
    by (simp only: list.set insert_iff empty_iff append_Cons append_Nil) blast
  then show ?thesis
  proof cases
    case env
    with assms(2,3) addLocalEnv_fileList [of e p ps w r w'] show ?thesis by auto
  next
    case manifest
    with assms(2,3) addConsolidateManifest_fileList [of e p ps w r w'] show ?thesis by auto
  next
    case event
    with assms(2,3) sendTelemetryEvent_frame [of ev w r w'] show ?thesis by auto
  next
    case backup
    with assms(2,3) backupAndRemove_fileList [of e "[p]" rel w r w'] show ?thesis by auto
  next
    case compare
    with assms(2,3) compare_frame [of e ?local ?remote w r w'] show ?thesis
      by (auto split: if_splits)
  next
    case post
    with assms(2,3) postConsolidate_frame [of "[p]" i w r w'] show ?thesis by auto
  qed
qed

lemma transform_prefix_fileList:
  assumes "fileList w = []" "run_steps (take k (transform_steps e [p] ps i)) w = (r, w')"
  shows "set (fileList w') \<subseteq> recordedPaths p"
proof -
  have "set (fileList w) \<subseteq> recordedPaths p" using assms(1) by simp
  then show ?thesis
    using run_steps_take_invariant
      [of "transform_steps e [p] ps i" "\<lambda>w. set (fileList w) \<subseteq> recordedPaths p" w k r w']
      transform_step_fileList assms(2)
    by blast
qed

subsection \<open>The backups during the rollback\<close>

lemma restoreAll_backups:
  assumes "\<forall>item \<in> set items. \<exists>a b c. snd item = [p, a, b, c] \<and> a \<noteq> backupFolder"
    and "restoreAll e items w = (r, w')"
  shows "removeMap w' = removeMap w \<and> fileList w' = fileList w \<and>
         files w' (p # backupFolder # rel) = files w (p # backupFolder # rel)"
  using assms
proof (induction items arbitrary: w)
  case Nil
  then show ?case by simp
next
  case (Cons item items)
  obtain a b c where shape: "snd item = [p, a, b, c]" "a \<noteq> backupFolder"
    using Cons.prems(1) by auto
  obtain r1 w1 where first: "io_copy e (RestoreCopy (fst item)) (fst item) (snd item) w = (r1, w1)"
    by (cases "io_copy e (RestoreCopy (fst item)) (fst item) (snd item) w")
  have kept: "removeMap w1 = removeMap w \<and> fileList w1 = fileList w \<and>
      files w1 (p # backupFolder # rel) = files w (p # backupFolder # rel)"
    using first shape
    by (auto simp: io_copy_def fs_copy_def split: option.splits if_splits)
  show ?case
  proof (cases r1)
    case None
    with Cons.prems(2) first have "restoreAll e items w1 = (r, w')" by simp
    with Cons.IH [of w1] Cons.prems(1) kept show ?thesis by simp
  next
    case (Some x)
    with Cons.prems(2) first have "w' = w1" by simp
    with kept show ?thesis by simp
  qed
qed

lemma removeAll_backups:
  assumes "set items \<subseteq> recordedPaths p" "removeAll e items w = (r, w')"
  shows "removeMap w' = removeMap w \<and>
         files w' (p # backupFolder # rel) = files w (p # backupFolder # rel)"
  using assms
proof (induction items arbitrary: w)
  case Nil
  then show ?case by simp
next
  case (Cons item items)
  obtain r1 w1 where first: "io_remove e (RemoveCreated item) item w = (r1, w1)"
    by (cases "io_remove e (RemoveCreated item) item w")
  have "item \<in> recordedPaths p" using Cons.prems(1) by simp
  then have kept: "removeMap w1 = removeMap w \<and>
      files w1 (p # backupFolder # rel) = files w (p # backupFolder # rel)"
    using first
    by (auto simp: io_remove_def fs_remove_def recordedPaths_def backupFolder_def
             split: option.splits)
  show ?case
  proof (cases r1)
    case None
    with Cons.prems(2) first have "removeAll e items w1 = (r, w')" by simp
    with Cons.IH [of w1] Cons.prems(1) kept show ?thesis by simp
  next
    case (Some x)
    with Cons.prems(2) first have "w' = w1" by simp
    with kept show ?thesis by simp
  qed
qed

text \<open>
  On success the report is written into the backup folder beside the backups, which stay
  as they are.
\<close>

lemma generateUpgradeReport_keeps_backups:
  assumes "rel \<in> set legacyFiles"
  shows "files (generateUpgradeReport e (path_join [p] [backupFolder]) w) (p # backupFolder # rel)
           = files w (p # backupFolder # rel)
       \<and> removeMap (generateUpgradeReport e (path_join [p] [backupFolder]) w) = removeMap w"
proof -
  obtain a b c where "rel = [a, b, c]" using legacy_shape [OF assms] by blast
  then show ?thesis
    by (auto simp: generateUpgradeReport_def io_writeFile_def path_join_def
             split: option.splits prod.splits if_splits)
qed

text \<open>
  C7 as stated fails at one point of the run: the last statement of the \<^verbatim>\<open>catch\<close>
  block deletes the backup folder, and the remove map still holds its entries. In the run
  that fails at the copy of the local manifest, the remove map that is left holds the
  local-settings entry, and its backup path no longer exists.
\<close>

theorem C7_last_statement_counterexample:
  "\<exists>w'. consolidateLocalRemote
          (sample_env (fail_at (CopyToBackup
             [''proj'', ''templates'', ''appPackage'', ''manifest.local.template.json'']))
             False None) sample_ctx sample_world = (Inl (IOError ''EIO''), w')
      \<and> removeMap w' = [([''proj'', ''.backup'', ''.fx'', ''configs'', ''localSettings.json''],
                          [''proj'', ''.fx'', ''configs'', ''localSettings.json''])]
      \<and> files w' [''proj'', ''.backup'', ''.fx'', ''configs'', ''localSettings.json''] = None"
  by (simp add: model_defs sample_defs diff.simps ignoreKeys_def)

text \<open>
  C7, amended. Take a consolidation run from its start (file list and remove map empty),
  stopped after any number \<open>k\<close> of statements of the \<^verbatim>\<open>try\<close> block or at any
  failing file operation, and then, if the \<^verbatim>\<open>catch\<close> block runs, any part \<open>j\<close> of
  its two loops. Every entry of the remove map at that point pairs a legacy file with its
  path under the backup folder, the original existed when the run started, and the backup
  exists and holds what the original held: the entry is added only after the copy. The
  report written after a successful run leaves the backup as it is. Only the last
  statement of the \<^verbatim>\<open>catch\<close> block, the removal of the backup folder, ends this:
  after it the backup of every entry is gone.
\<close>

theorem C7_removeMap_entries_have_backups:
  assumes "fileList w = []" "removeMap w = []"
    and "run_steps (take k (transform_steps e [p] ps i)) w = (r, w')"
    and "run_steps (take j [restoreAll e (removeMap w'), removeAll e (fileList w')]) w' = (r', w'')"
    and "(b, orig) \<in> set (removeMap w'')"
  shows "pathExists (files w) orig \<and> files w'' b = files w orig
       \<and> (\<exists>rel \<in> set legacyFiles. orig = p # rel \<and> b = p # backupFolder # rel)
       \<and> files (generateUpgradeReport e (path_join [p] [backupFolder]) w'') b = files w orig
       \<and> (fault e RemoveBackupFolder = None \<longrightarrow>
            files (snd (io_remove e RemoveBackupFolder (path_join [p] [backupFolder]) w'')) b
              = None)"
proof -
  have intact: "backups_intact p (files w) w'"
    using assms(2,3) by (rule transform_prefix_intact)
  have recorded: "set (fileList w') \<subseteq> recordedPaths p"
    using assms(1,3) by (rule transform_prefix_fileList)
  have shapes: "\<forall>item \<in> set (removeMap w'). \<exists>a b c. snd item = [p, a, b, c] \<and> a \<noteq> backupFolder"
  proof
    fix item assume item: "item \<in> set (removeMap w')"
    obtain b0 o0 where bo: "item = (b0, o0)" by (cases item)
    from intact item bo obtain rel where "rel \<in> set legacyFiles" "o0 = p # rel"
      unfolding backups_intact_def by fastforce
    with legacy_shape [of rel] bo
    show "\<exists>a b c. snd item = [p, a, b, c] \<and> a \<noteq> backupFolder" by auto
  qed
  let ?I = "\<lambda>v. removeMap v = removeMap w' \<and>
               (\<forall>rel. files v (p # backupFolder # rel) = files w' (p # backupFolder # rel))"
  have step: "?I v'" if "f \<in> set [restoreAll e (removeMap w'), removeAll e (fileList w')]"
    "?I v" "f v = (r2, v')" for f v r2 v'
  proof -
    from that(1) consider "f = restoreAll e (removeMap w')" | "f = removeAll e (fileList w')"
      by auto
    then show ?thesis
    proof cases
      case 1
      with that(3) have "restoreAll e (removeMap w') v = (r2, v')" by simp
      from restoreAll_backups [OF shapes this] that(2) show ?thesis by simp
    next
      case 2
      with that(3) have "removeAll e (fileList w') v = (r2, v')" by simp
      from removeAll_backups [OF recorded this] that(2) show ?thesis by simp
    qed
  qed
  have init: "?I w'" by simp
  have kept: "?I w''"
    by (rule run_steps_take_invariant
          [where I = ?I and fs = "[restoreAll e (removeMap w'), removeAll e (fileList w')]",
           OF step init assms(4)])
  from assms(5) kept have "(b, orig) \<in> set (removeMap w')" by simp
  with intact obtain rel where rel: "rel \<in> set legacyFiles" "orig = p # rel"
    "b = p # backupFolder # rel" "files w' b = files w orig" "files w orig \<noteq> None"
    unfolding backups_intact_def by fastforce
  moreover from kept rel(3) have "files w'' b = files w' b" by simp
  moreover have "files (generateUpgradeReport e (path_join [p] [backupFolder]) w'') b = files w'' b"
    using generateUpgradeReport_keeps_backups [OF rel(1), of e p w''] rel(3) by simp
  moreover have "fault e RemoveBackupFolder = None \<longrightarrow>
      files (snd (io_remove e RemoveBackupFolder (path_join [p] [backupFolder]) w'')) b = None"
    using rel(3) by (simp add: io_remove_def fs_remove_def path_join_def)
  ultimately show ?thesis by (auto simp: pathExists_def)
qed


lemma restoreAll_removeMap:
  "restoreAll e items w = (r, w') \<Longrightarrow> removeMap w' = removeMap w"
proof (induction items arbitrary: w)
  case Nil
  then show ?case by simp
next
  case (Cons item items)
  then show ?case
    by (auto simp: io_copy_def split: option.splits if_splits prod.splits)
qed

lemma run_steps_single: "run_steps [f] w = f w"
  by (simp split: prod.splits option.splits)

theorem C7_witness:
  "pathExists sample_files [''proj'', ''.fx'', ''configs'', ''localSettings.json'']
   \<and> files (snd (run_steps
         [restoreAll
            (sample_env (fail_at (CopyToBackup
               [''proj'', ''templates'', ''appPackage'', ''manifest.local.template.json''])) False None)
            (removeMap (snd (run_steps (transform_steps
               (sample_env (fail_at (CopyToBackup
                  [''proj'', ''templates'', ''appPackage'', ''manifest.local.template.json''])) False None)
               [''proj''] \<lparr>appName = ''app'', isSPFx = False\<rparr>
               \<lparr>projectPath = Some ''proj'', platform = Some CLI\<rparr>) sample_world)))]
         (snd (run_steps (transform_steps
               (sample_env (fail_at (CopyToBackup
                  [''proj'', ''templates'', ''appPackage'', ''manifest.local.template.json''])) False None)
               [''proj''] \<lparr>appName = ''app'', isSPFx = False\<rparr>
               \<lparr>projectPath = Some ''proj'', platform = Some CLI\<rparr>) sample_world))))
       [''proj'', ''.backup'', ''.fx'', ''configs'', ''localSettings.json'']
     = Some (File ''LS'')"
proof -
  let ?e = "sample_env (fail_at (CopyToBackup
               [''proj'', ''templates'', ''appPackage'', ''manifest.local.template.json''])) False None"
  let ?steps = "transform_steps ?e [''proj''] \<lparr>appName = ''app'', isSPFx = False\<rparr>
               \<lparr>projectPath = Some ''proj'', platform = Some CLI\<rparr>"
  let ?x = "run_steps ?steps sample_world"
  let ?y = "run_steps [restoreAll ?e (removeMap (snd ?x))] (snd ?x)"
  have len: "take 10 ?steps = ?steps" by (simp add: transform_steps_def Let_def)
  have a: "fileList sample_world = []" "removeMap sample_world = []"
    by (simp_all add: sample_world_def)
  have b: "run_steps (take 10 ?steps) sample_world = (fst ?x, snd ?x)"
    by (simp only: len prod.collapse)
  have rm: "removeMap (snd ?x) =
      [([''proj'', ''.backup'', ''.fx'', ''configs'', ''localSettings.json''],
        [''proj'', ''.fx'', ''configs'', ''localSettings.json''])]"
    by (simp add: model_defs sample_defs diff.simps ignoreKeys_def)
  have c: "run_steps (take 1 [restoreAll ?e (removeMap (snd ?x)), removeAll ?e (fileList (snd ?x))])
             (snd ?x) = (fst ?y, snd ?y)"
    by (simp only: take_Suc_Cons take_0 One_nat_def prod.collapse)
  have rm2: "removeMap (snd ?y) = removeMap (snd ?x)"
  proof (rule restoreAll_removeMap)
    show "restoreAll ?e (removeMap (snd ?x)) (snd ?x) = (fst ?y, snd ?y)"
      by (simp only: run_steps_single prod.collapse)
  qed
  have d: "([''proj'', ''.backup'', ''.fx'', ''configs'', ''localSettings.json''],
            [''proj'', ''.fx'', ''configs'', ''localSettings.json'']) \<in> set (removeMap (snd ?y))"
    unfolding rm2 by (simp only: rm list.set insertI1)
  have fs: "files sample_world = sample_files" by (simp add: sample_world_def)
  have ls: "sample_files [''proj'', ''.fx'', ''configs'', ''localSettings.json''] = Some (File ''LS'')"
    by (simp add: sample_files_def)
  note concl = C7_removeMap_entries_have_backups [OF a b c d, unfolded fs ls]
  from concl have 1: "pathExists sample_files [''proj'', ''.fx'', ''configs'', ''localSettings.json'']"
    by (rule conjunct1)
  from concl have 2: "files (snd ?y) [''proj'', ''.backup'', ''.fx'', ''configs'', ''localSettings.json'']
      = Some (File ''LS'')"
    by (elim conjE)
  from 1 2 show ?thesis by (rule conjI)
qed



section \<open>Claims about the comparison and the rollback\<close>

text \<open>
  C9. \<^verbatim>\<open>compareLocalAndRemoteManifest\<close> never raises: whatever its body does, the
  step completes, the run goes on with the statements that follow it, and the file system,
  the file list, the remove map, the move list and the context result are as before. When
  the body fails with an exception \<open>x\<close>, the only effect is the telemetry error event
  carrying \<open>x\<close>; a manifest that does not parse is such a failure (a SyntaxError), and so
  is a failure inside \<^verbatim>\<open>diff\<close> (a TypeError). Otherwise at most one non-modal
  warning dialog is shown.
\<close>

theorem C9_compare_failure_swallowed:
  "fst (compareLocalAndRemoteManifest e l r w) = None
   \<and> run_steps (compareLocalAndRemoteManifest e l r # rest) w =
       run_steps rest (snd (compareLocalAndRemoteManifest e l r w))
   \<and> files (snd (compareLocalAndRemoteManifest e l r w)) = files w
   \<and> fileList (snd (compareLocalAndRemoteManifest e l r w)) = fileList w
   \<and> removeMap (snd (compareLocalAndRemoteManifest e l r w)) = removeMap w
   \<and> moveFiles (snd (compareLocalAndRemoteManifest e l r w)) = moveFiles w
   \<and> ctxResult (snd (compareLocalAndRemoteManifest e l r w)) = ctxResult w
   \<and> (compareBody e l r w = Inl x \<longrightarrow>
        snd (compareLocalAndRemoteManifest e l r w) =
          w\<lparr>telemetry := telemetry w @ [ErrorEvent ProjectConsolidateCheckManifestError x]\<rparr>)
   \<and> (io_readFile e (ReadForCompare l) l w = Inr ls \<longrightarrow>
        io_readFile e (ReadForCompare r) r w = Inr rs \<longrightarrow>
        parseJson e (replaceManifestRegex e ls) = None \<or>
        parseJson e (replaceManifestRegex e rs) = None \<longrightarrow>
        compareBody e l r w = Inl SyntaxError)
   \<and> (io_readFile e (ReadForCompare l) l w = Inr ls \<longrightarrow>
        io_readFile e (ReadForCompare r) r w = Inr rs \<longrightarrow>
        parseJson e (replaceManifestRegex e ls) = Some a \<longrightarrow>
        parseJson e (replaceManifestRegex e rs) = Some b \<longrightarrow>
        diff a b = None \<longrightarrow>
        compareBody e l r w = Inl TypeError)
   \<and> (prompts (snd (compareLocalAndRemoteManifest e l r w)) = prompts w \<or>
        prompts (snd (compareLocalAndRemoteManifest e l r w)) =
          prompts w @ [\<lparr>prompt_message = DifferentManifest, prompt_modal = False,
                         prompt_items = [''OK'']\<rparr>])"
proof -
  obtain res w' where c: "compareLocalAndRemoteManifest e l r w = (res, w')"
    by (cases "compareLocalAndRemoteManifest e l r w")
  note frame = compare_frame [OF c]
  have body: "compareBody e l r w = Inl x \<longrightarrow>
      w' = w\<lparr>telemetry := telemetry w @ [ErrorEvent ProjectConsolidateCheckManifestError x]\<rparr>"
    using c by (auto simp: compareLocalAndRemoteManifest_def)
  have syn: "io_readFile e (ReadForCompare l) l w = Inr ls \<longrightarrow>
        io_readFile e (ReadForCompare r) r w = Inr rs \<longrightarrow>
        parseJson e (replaceManifestRegex e ls) = None \<or>
        parseJson e (replaceManifestRegex e rs) = None \<longrightarrow>
        compareBody e l r w = Inl SyntaxError"
    by (auto simp: compareBody_def split: option.splits)
  have tyerr: "io_readFile e (ReadForCompare l) l w = Inr ls \<longrightarrow>
        io_readFile e (ReadForCompare r) r w = Inr rs \<longrightarrow>
        parseJson e (replaceManifestRegex e ls) = Some a \<longrightarrow>
        parseJson e (replaceManifestRegex e rs) = Some b \<longrightarrow>
        diff a b = None \<longrightarrow>
        compareBody e l r w = Inl TypeError"
    by (simp add: compareBody_def)
  have pr: "prompts w' = prompts w \<or>
        prompts w' = prompts w @ [\<lparr>prompt_message = DifferentManifest, prompt_modal = False,
                                    prompt_items = [''OK'']\<rparr>]"
    using c
    by (auto simp: compareLocalAndRemoteManifest_def compareBody_def
             split: sum.splits option.splits bool.splits)
  have cont: "run_steps (compareLocalAndRemoteManifest e l r # rest) w = run_steps rest w'"
    using c frame by simp
  show ?thesis
    unfolding c fst_conv snd_conv
    using frame body syn tyerr pr cont by blast
qed

theorem C9_compare_failure_witness:
  "snd (compareLocalAndRemoteManifest (sample_env no_fault False None)
          [''proj'', ''templates'', ''appPackage'', ''manifest.local.template.json'']
          [''proj'', ''templates'', ''appPackage'', ''manifest.remote.template.json'']
          sample_world)
     = sample_world\<lparr>telemetry := [ErrorEvent ProjectConsolidateCheckManifestError SyntaxError]\<rparr>
   \<and> fst (consolidateLocalRemote (sample_env no_fault False None) sample_ctx sample_world)
       = Inr True"
proof -
  let ?e = "sample_env no_fault False None"
  let ?l = "[''proj'', ''templates'', ''appPackage'', ''manifest.local.template.json'']"
  let ?r = "[''proj'', ''templates'', ''appPackage'', ''manifest.remote.template.json'']"
  have rl: "io_readFile ?e (ReadForCompare ?l) ?l sample_world = Inr ''LOCAL''"
    by (simp add: io_readFile_def sample_defs)
  have rr: "io_readFile ?e (ReadForCompare ?r) ?r sample_world = Inr ''REMOTE''"
    by (simp add: io_readFile_def sample_defs)
  have bad: "parseJson ?e (replaceManifestRegex ?e ''LOCAL'') = None \<or>
             parseJson ?e (replaceManifestRegex ?e ''REMOTE'') = None"
    by (simp add: sample_env_def)
  note inst = C9_compare_failure_swallowed
    [of ?e ?l ?r sample_world "[]" SyntaxError "''LOCAL''" "''REMOTE''" JNull JNull]
  from inst rl rr bad have "compareBody ?e ?l ?r sample_world = Inl SyntaxError" by blast
  with inst have "snd (compareLocalAndRemoteManifest ?e ?l ?r sample_world) =
     sample_world\<lparr>telemetry := telemetry sample_world @
        [ErrorEvent ProjectConsolidateCheckManifestError SyntaxError]\<rparr>" by blast
  moreover have "telemetry sample_world = []" by (simp add: sample_world_def)
  moreover have "fst (consolidateLocalRemote ?e sample_ctx sample_world) = Inr True"
    by (simp add: model_defs sample_defs diff.simps ignoreKeys_def)
  ultimately show ?thesis by simp
qed


subsection \<open>What the rollback achieves when its own operations succeed\<close>

lemma transform_intact:
  assumes "removeMap w = []" "transform e [p] ps i w = (r, w')"
  shows "backups_intact p (files w) w'"
  using transform_prefix_intact [OF assms(1), of "length (transform_steps e [p] ps i)" e p ps i r w']
    assms(2)
  by (simp add: transform_def)

lemma transform_fileList:
  assumes "fileList w = []" "transform e [p] ps i w = (r, w')"
  shows "set (fileList w') \<subseteq> recordedPaths p"
  using transform_prefix_fileList [OF assms(1), of "length (transform_steps e [p] ps i)" e p ps i r w']
    assms(2)
  by (simp add: transform_def)

lemma fs_copy_restore:
  assumes "rel0 = [a0, b0, c0]" "a0 \<noteq> backupFolder" "fs (p # backupFolder # rel0) \<noteq> None"
  shows "fs_copy fs (p # backupFolder # rel0) (p # rel0) (p # rel0) = fs (p # backupFolder # rel0)"
    and "fs_copy fs (p # backupFolder # rel0) (p # rel0) (p # backupFolder # rel)
         = fs (p # backupFolder # rel)"
    and "rel = [a, b, c] \<Longrightarrow> rel \<noteq> rel0 \<Longrightarrow>
         fs_copy fs (p # backupFolder # rel0) (p # rel0) (p # rel) = fs (p # rel)"
  using assms by (auto simp: fs_copy_def)

lemma restoreAll_restores:
  assumes "\<And>b. fault e (RestoreCopy b) = None"
    and "\<forall>item \<in> set items. \<exists>rel \<in> set legacyFiles.
           item = (p # backupFolder # rel, p # rel) \<and>
           files w (p # backupFolder # rel) = fs0 (p # rel) \<and> fs0 (p # rel) \<noteq> None"
  shows "\<exists>w'. restoreAll e items w = (None, w') \<and> fileList w' = fileList w \<and>
           removeMap w' = removeMap w \<and>
           (\<forall>rel. files w' (p # backupFolder # rel) = files w (p # backupFolder # rel)) \<and>
           (\<forall>rel \<in> set legacyFiles.
              files w' (p # rel) = fs0 (p # rel) \<or> files w' (p # rel) = files w (p # rel)) \<and>
           (\<forall>item \<in> set items. files w' (snd item) = fs0 (snd item))"
  using assms(2)
proof (induction items arbitrary: w)
  case Nil
  then show ?case by simp
next
  case (Cons item items)
  from Cons.prems obtain rel0 where rel0: "rel0 \<in> set legacyFiles"
    "item = (p # backupFolder # rel0, p # rel0)"
    "files w (p # backupFolder # rel0) = fs0 (p # rel0)" "fs0 (p # rel0) \<noteq> None"
    by auto
  obtain a0 b0 c0 where shape: "rel0 = [a0, b0, c0]" "a0 \<noteq> backupFolder"
    using legacy_shape [OF rel0(1)] by blast
  let ?fs = "fs_copy (files w) (p # backupFolder # rel0) (p # rel0)"
  let ?w1 = "w\<lparr>files := ?fs\<rparr>"
  have ex: "files w (p # backupFolder # rel0) \<noteq> None" using rel0(3,4) by simp
  have first: "io_copy e (RestoreCopy (fst item)) (fst item) (snd item) w = (None, ?w1)"
    using rel0(2) ex assms(1) by (simp add: io_copy_def pathExists_def)
  have here: "?fs (p # rel0) = fs0 (p # rel0)"
    using fs_copy_restore(1) [where fs = "files w" and p = p, OF shape ex] rel0(3) by simp
  have backups: "\<And>rel. ?fs (p # backupFolder # rel) = files w (p # backupFolder # rel)"
    using fs_copy_restore(2) [where fs = "files w" and p = p, OF shape ex] by simp
  have others: "\<And>rel. rel \<in> set legacyFiles \<Longrightarrow> rel \<noteq> rel0 \<Longrightarrow> ?fs (p # rel) = files w (p # rel)"
    using fs_copy_restore(3) [where fs = "files w" and p = p, OF shape ex] legacy_shape by blast
  have pre: "\<forall>item \<in> set items. \<exists>rel \<in> set legacyFiles.
           item = (p # backupFolder # rel, p # rel) \<and>
           files ?w1 (p # backupFolder # rel) = fs0 (p # rel) \<and> fs0 (p # rel) \<noteq> None"
    using Cons.prems backups by simp
  from Cons.IH [OF pre] obtain w' where w': "restoreAll e items ?w1 = (None, w')"
    "fileList w' = fileList ?w1" "removeMap w' = removeMap ?w1"
    "\<forall>rel. files w' (p # backupFolder # rel) = files ?w1 (p # backupFolder # rel)"
    "\<forall>rel \<in> set legacyFiles.
        files w' (p # rel) = fs0 (p # rel) \<or> files w' (p # rel) = files ?w1 (p # rel)"
    "\<forall>item \<in> set items. files w' (snd item) = fs0 (snd item)"
    by blast
  have run: "restoreAll e (item # items) w = (None, w')"
    using first w'(1) by simp
  have kept: "\<forall>rel \<in> set legacyFiles.
      files w' (p # rel) = fs0 (p # rel) \<or> files w' (p # rel) = files w (p # rel)"
  proof
    fix rel assume rel: "rel \<in> set legacyFiles"
    show "files w' (p # rel) = fs0 (p # rel) \<or> files w' (p # rel) = files w (p # rel)"
    proof (cases "rel = rel0")
      case True
      with w'(5) rel here show ?thesis by auto
    next
      case False
      with w'(5) rel others [OF rel False] show ?thesis by auto
    qed
  qed
  have this_one: "files w' (snd item) = fs0 (snd item)"
    using w'(5) rel0(1,2) here by auto
  show ?case
    using run w'(2,3,4,6) backups kept this_one by auto
qed

lemma removeAll_removes:
  assumes "\<And>q. fault e (RemoveCreated q) = None" "set items \<subseteq> recordedPaths p"
  shows "\<exists>w'. removeAll e items w = (None, w') \<and> fileList w' = fileList w \<and>
           removeMap w' = removeMap w \<and>
           (\<forall>q \<in> set items. files w' q = None) \<and>
           (\<forall>q. files w q = None \<longrightarrow> files w' q = None) \<and>
           (\<forall>rel \<in> set legacyFiles. files w' (p # rel) = files w (p # rel))"
  using assms(2)
proof (induction items arbitrary: w)
  case Nil
  then show ?case by simp
next
  case (Cons item items)
  let ?w1 = "w\<lparr>files := fs_remove (files w) item\<rparr>"
  have first: "io_remove e (RemoveCreated item) item w = (None, ?w1)"
    using assms(1) by (simp add: io_remove_def)
  have item: "item \<in> recordedPaths p" using Cons.prems by simp
  have gone: "files ?w1 item = None" by (simp add: fs_remove_def)
  have mono: "\<And>q. files w q = None \<Longrightarrow> files ?w1 q = None" by (simp add: fs_remove_def)
  have legacy: "\<And>rel. rel \<in> set legacyFiles \<Longrightarrow> files ?w1 (p # rel) = files w (p # rel)"
    using item by (auto simp: fs_remove_def recordedPaths_def legacyFiles_def)
  from Cons.prems have "set items \<subseteq> recordedPaths p" by simp
  from Cons.IH [OF this, of ?w1] obtain w' where w': "removeAll e items ?w1 = (None, w')"
    "fileList w' = fileList ?w1" "removeMap w' = removeMap ?w1"
    "\<forall>q \<in> set items. files w' q = None"
    "\<forall>q. files ?w1 q = None \<longrightarrow> files w' q = None"
    "\<forall>rel \<in> set legacyFiles. files w' (p # rel) = files ?w1 (p # rel)"
    by blast
  have run: "removeAll e (item # items) w = (None, w')"
    using first w'(1) by simp
  show ?case
    using run w'(2-6) gone mono legacy by auto
qed


subsection \<open>A changed legacy file has its entry\<close>

lemma map_set_mem: "(k, v) \<in> set (map_set k v m)"
  by (induction m) auto

lemma map_set_keeps: "(k', v') \<in> set m \<Longrightarrow> k' \<noteq> k \<Longrightarrow> (k', v') \<in> set (map_set k v m)"
  by (induction m) auto

lemma legacy_accounted_kept:
  assumes "legacy_accounted p fs0 w" "removeMap w' = removeMap w"
    and "\<And>rel. rel \<in> set legacyFiles \<Longrightarrow> files w' (p # rel) = files w (p # rel)"
  shows "legacy_accounted p fs0 w'"
  using assms unfolding legacy_accounted_def by fastforce

lemma backupAndRemove_cases:
  assumes "backupAndRemove e [p] rel0 w = (r, w')"
  obtains (same) "w' = w"
    | (copied) "removeMap w' = removeMap w"
        "files w' = fs_copy (files w) (p # rel0) (p # backupFolder # rel0)"
    | (moved) "removeMap w' = map_set (p # backupFolder # rel0) (p # rel0) (removeMap w)"
        "files w' = fs_remove (fs_copy (files w) (p # rel0) (p # backupFolder # rel0)) (p # rel0)"
  using assms
  by (auto simp: backupAndRemove_def Let_def path_join_def io_copy_def io_remove_def
           split: if_splits option.splits)

lemma backupAndRemove_accounted:
  assumes "rel0 \<in> set legacyFiles" "legacy_accounted p fs0 w"
    and "backupAndRemove e [p] rel0 w = (r, w')"
  shows "legacy_accounted p fs0 w'"
proof -
  obtain a0 b0 c0 where shape0: "rel0 = [a0, b0, c0]" "a0 \<noteq> backupFolder"
    using legacy_shape [OF assms(1)] by blast
  from assms(3) show ?thesis
  proof (cases rule: backupAndRemove_cases)
    case same
    with assms(2) show ?thesis by simp
  next
    case copied
    show ?thesis
    proof (rule legacy_accounted_kept [OF assms(2) copied(1)])
      fix rel assume "rel \<in> set legacyFiles"
      then obtain a b c where "rel = [a, b, c]" "a \<noteq> backupFolder"
        using legacy_shape by blast
      with fs_copy_backup_others [of rel a b c rel0 a0 b0 c0 "files w" p] shape0 copied(2)
      show "files w' (p # rel) = files w (p # rel)" by simp
    qed
  next
    case moved
    show ?thesis
      unfolding legacy_accounted_def
    proof
      fix rel assume rel: "rel \<in> set legacyFiles"
      then obtain a b c where shape: "rel = [a, b, c]" "a \<noteq> backupFolder"
        using legacy_shape by blast
      show "files w' (p # rel) = fs0 (p # rel) \<or>
            (p # backupFolder # rel, p # rel) \<in> set (removeMap w')"
      proof (cases "rel = rel0")
        case True
        with moved(1) show ?thesis by (simp add: map_set_mem)
      next
        case False
        have "files w' (p # rel) = files w (p # rel)"
          using fs_copy_backup_others [of rel a b c rel0 a0 b0 c0 "files w" p]
            fs_remove_original_others [of rel a b c rel0 a0 b0 c0
              "fs_copy (files w) (p # rel0) (p # backupFolder # rel0)" p]
            shape shape0 False moved(2) by simp
        moreover have "(p # backupFolder # rel, p # rel) \<in> set (removeMap w) \<Longrightarrow>
            (p # backupFolder # rel, p # rel) \<in> set (removeMap w')"
          using False moved(1) by (simp add: map_set_keeps)
        ultimately show ?thesis
          using assms(2) rel unfolding legacy_accounted_def by auto
      qed
    qed
  qed
qed

lemma transform_step_accounted:
  assumes "f \<in> set (transform_steps e [p] ps i)" "legacy_accounted p fs0 w" "f w = (r, w')"
  shows "legacy_accounted p fs0 w'"
proof -
  let ?local = "[p, ''templates'', ''appPackage'', ''manifest.local.template.json'']"
  let ?remote = "[p, ''templates'', ''appPackage'', ''manifest.remote.template.json'']"
  from assms(1) consider
      (env) "f = addLocalEnv e [p] ps"
    | (manifest) "f = addConsolidateManifest e [p] ps"
    | (event) ev where "f = sendTelemetryEvent ev"
    | (backup) rel where "rel \<in> set legacyFiles" "f = backupAndRemove e [p] rel"
    | (compare) "f = (\<lambda>w. if pathExists (files w) ?local \<and> pathExists (files w) ?remote
                          then compareLocalAndRemoteManifest e ?local ?remote w else (None, w))"
    | (post) "f = postConsolidate [p] i"
    unfolding transform_steps_def Let_def path_join_def legacyFiles_def
    by (simp only: list.set insert_iff empty_iff append_Cons append_Nil) blast
  then show ?thesis
  proof cases
    case env
    with assms(3) addLocalEnv_frame [of e "[p]" ps w r w'] legacy_not_env_config [of _ p]
    show ?thesis by (intro legacy_accounted_kept [OF assms(2)]) auto
  next
    case manifest
    with assms(3) addConsolidateManifest_frame [of e "[p]" ps w r w'] legacy_not_env_config [of _ p]
    show ?thesis by (intro legacy_accounted_kept [OF assms(2)]) auto
  next
    case event
    with assms(3) sendTelemetryEvent_frame [of ev w r w']
    show ?thesis by (intro legacy_accounted_kept [OF assms(2)]) auto
  next
    case backup
    with assms(2,3) show ?thesis by (auto intro: backupAndRemove_accounted)
  next
    case compare
    with assms(3) compare_frame [of e ?local ?remote w r w']
    show ?thesis by (intro legacy_accounted_kept [OF assms(2)]) (auto split: if_splits)
  next
    case post
    with assms(3) postConsolidate_frame [of "[p]" i w r w']
    show ?thesis by (intro legacy_accounted_kept [OF assms(2)]) auto
  qed
qed

lemma transform_accounted:
  assumes "transform e [p] ps i w = (r, w')"
  shows "legacy_accounted p (files w) w'"
proof -
  have init: "legacy_accounted p (files w) w" by (simp add: legacy_accounted_def)
  show ?thesis
    by (rule run_steps_invariant
          [where I = "legacy_accounted p (files w)" and fs = "transform_steps e [p] ps i",
           OF _ init assms [unfolded transform_def]])
       (rule transform_step_accounted)
qed

text \<open>
  C1 as stated fails: the \<^verbatim>\<open>catch\<close> block does not guard its own operations. In the
  run below the \<^verbatim>\<open>try\<close> block fails with \<^verbatim>\<open>EIO\<close> at the copy of the local
  manifest into the backup folder, after the local-settings file was backed up and
  removed; the first copy of the \<^verbatim>\<open>catch\<close> block then fails with \<^verbatim>\<open>EACCES\<close>.
  That second error is the one thrown, the local-settings file is not restored, and the
  paths of the file list and the backup folder are not deleted.
\<close>

theorem C1_rollback_counterexample:
  "fst (transform (sample_env double_fault False None) [''proj'']
          \<lparr>appName = ''app'', isSPFx = False\<rparr> \<lparr>projectPath = Some ''proj'', platform = Some CLI\<rparr>
          sample_world) = Some (IOError ''EIO'')
   \<and> (\<exists>w'. consolidateLocalRemote (sample_env double_fault False None) sample_ctx sample_world
             = (Inl (IOError ''EACCES''), w')
        \<and> removeMap w' = [([''proj'', ''.backup'', ''.fx'', ''configs'', ''localSettings.json''],
                            [''proj'', ''.fx'', ''configs'', ''localSettings.json''])]
        \<and> files w' [''proj'', ''.fx'', ''configs'', ''localSettings.json''] = None
        \<and> files w' [''proj'', ''.backup'', ''.fx'', ''configs'', ''localSettings.json'']
            = Some (File ''LS'')
        \<and> files w' [''proj'', ''.backup''] = Some Dir)"
  by (simp add: model_defs sample_defs double_fault_def diff.simps ignoreKeys_def)

text \<open>
  C1, amended. When the \<^verbatim>\<open>try\<close> block of \<^verbatim>\<open>consolidateLocalRemote\<close> raises an
  exception \<open>x\<close> and none of the \<^verbatim>\<open>catch\<close> block's own file operations fails, the
  call throws \<open>x\<close> itself, and in the file system it leaves every entry of the remove map
  has been copied back: the recorded original path holds what the backup held, which is
  what the original held when the run started; every path of the file list is absent; and
  nothing exists under the backup folder. A legacy file that the \<^verbatim>\<open>try\<close> block had
  removed has its entry in the remove map, so wherever the \<^verbatim>\<open>try\<close> block failed,
  each of the three legacy files holds at the end what it held at the start. In
  particular, in every run that fails after the local-settings backup and before the
  local-manifest backup, the local-settings file is back at its original path.
\<close>

theorem C1_rollback_restores:
  assumes "ctxInputs c = Some i" "projectPath i = Some p" "loadProjectSettings e i = Ok ps"
    and "transform e [p] ps i
           (w\<lparr>telemetry := telemetry w @ [Event ProjectConsolidateUpgradeStart],
              fileList := [], removeMap := [], moveFiles := []\<rparr>) = (Some x, w1)"
    and "\<forall>b. fault e (RestoreCopy b) = None" "\<forall>q. fault e (RemoveCreated q) = None"
    and "fault e RemoveBackupFolder = None"
  shows "\<exists>w2. consolidateLocalRemote e c w = (Inl x, w2)
       \<and> (\<forall>(b, orig) \<in> set (removeMap w1).
             pathExists (files w) orig \<and> files w1 b = files w orig \<and>
             files w2 orig = files w orig)
       \<and> (\<forall>q \<in> set (fileList w1). files w2 q = None)
       \<and> (\<forall>q. prefix [p, backupFolder] q \<longrightarrow> files w2 q = None)
       \<and> (\<forall>rel \<in> set legacyFiles.
             files w1 (p # rel) = files w (p # rel) \<or>
             (p # backupFolder # rel, p # rel) \<in> set (removeMap w1))
       \<and> (\<forall>rel \<in> set legacyFiles. files w2 (p # rel) = files w (p # rel))
       \<and> files w2 [p, ''.fx'', ''configs'', ''localSettings.json'']
           = files w [p, ''.fx'', ''configs'', ''localSettings.json'']"
proof -
  let ?w0 = "w\<lparr>telemetry := telemetry w @ [Event ProjectConsolidateUpgradeStart],
               fileList := [], removeMap := [], moveFiles := []\<rparr>"
  have intact: "backups_intact p (files w) w1"
    using transform_intact [of ?w0 e p ps i "Some x" w1] assms(4) by simp
  have accounted: "\<forall>rel \<in> set legacyFiles.
      files w1 (p # rel) = files w (p # rel) \<or>
      (p # backupFolder # rel, p # rel) \<in> set (removeMap w1)"
    using transform_accounted [OF assms(4)] by (simp add: legacy_accounted_def)
  have recorded: "set (fileList w1) \<subseteq> recordedPaths p"
    using transform_fileList [of ?w0 e p ps i "Some x" w1] assms(4) by simp
  have items: "\<forall>item \<in> set (removeMap w1). \<exists>rel \<in> set legacyFiles.
      item = (p # backupFolder # rel, p # rel) \<and>
      files w1 (p # backupFolder # rel) = files w (p # rel) \<and> files w (p # rel) \<noteq> None"
    using intact unfolding backups_intact_def by fastforce
  from restoreAll_restores [of e "removeMap w1" p w1 "files w"] assms(5) items
  obtain wa where wa: "restoreAll e (removeMap w1) w1 = (None, wa)"
    "fileList wa = fileList w1"
    "\<forall>item \<in> set (removeMap w1). files wa (snd item) = files w (snd item)"
    "\<forall>rel \<in> set legacyFiles.
       files wa (p # rel) = files w (p # rel) \<or> files wa (p # rel) = files w1 (p # rel)"
    by blast
  from removeAll_removes [of e "fileList w1" p wa] assms(6) recorded
  obtain wb where wb: "removeAll e (fileList w1) wa = (None, wb)"
    "\<forall>q \<in> set (fileList w1). files wb q = None"
    "\<forall>rel \<in> set legacyFiles. files wb (p # rel) = files wa (p # rel)"
    by blast
  let ?wc = "wb\<lparr>files := fs_remove (files wb) [p, backupFolder]\<rparr>"
  have last: "io_remove e RemoveBackupFolder [p, backupFolder] wb = (None, ?wc)"
    using assms(7) by (simp add: io_remove_def)
  have rb: "rollback e [p] w1 = (None, ?wc)"
    using wa(1) wb(1) last by (simp add: rollback_def path_join_def)
  have call: "consolidateLocalRemote e c w = (Inl x, ?wc)"
    using assms(1-4) rb by (simp add: consolidateLocalRemote_def)
  have restored: "\<forall>(b, orig) \<in> set (removeMap w1).
      pathExists (files w) orig \<and> files w1 b = files w orig \<and> files ?wc orig = files w orig"
  proof (intro ballI, clarify)
    fix b orig assume entry: "(b, orig) \<in> set (removeMap w1)"
    with items obtain rel where rel: "rel \<in> set legacyFiles" "b = p # backupFolder # rel"
      "orig = p # rel" "files w1 b = files w orig" "files w orig \<noteq> None"
      by fastforce
    obtain a0 b0 c0 where shape: "rel = [a0, b0, c0]" "a0 \<noteq> backupFolder"
      using legacy_shape [OF rel(1)] by blast
    have "files wa orig = files w orig" using wa(3) entry by fastforce
    moreover have "files wb orig = files wa orig" using wb(3) rel(1,3) by simp
    moreover have "files ?wc orig = files wb orig"
      using rel(3) shape by (simp add: fs_remove_def)
    ultimately show "pathExists (files w) orig \<and> files w1 b = files w orig \<and>
        files ?wc orig = files w orig"
      using rel(4,5) by (simp add: pathExists_def)
  qed
  have deleted: "\<forall>q \<in> set (fileList w1). files ?wc q = None"
    using wb(2) by (simp add: fs_remove_def)
  have folder: "\<forall>q. prefix [p, backupFolder] q \<longrightarrow> files ?wc q = None"
    by (simp add: fs_remove_def)
  have all_back: "\<forall>rel \<in> set legacyFiles. files ?wc (p # rel) = files w (p # rel)"
  proof
    fix rel assume rel: "rel \<in> set legacyFiles"
    obtain a0 b0 c0 where shape: "rel = [a0, b0, c0]" "a0 \<noteq> backupFolder"
      using legacy_shape [OF rel] by blast
    have "files wa (p # rel) = files w (p # rel)"
    proof (cases "(p # backupFolder # rel, p # rel) \<in> set (removeMap w1)")
      case True
      with wa(3) show ?thesis by fastforce
    next
      case False
      with accounted rel have "files w1 (p # rel) = files w (p # rel)" by blast
      with wa(4) rel show ?thesis by auto
    qed
    moreover have "files wb (p # rel) = files wa (p # rel)" using wb(3) rel by simp
    moreover have "files ?wc (p # rel) = files wb (p # rel)"
      using shape by (simp add: fs_remove_def)
    ultimately show "files ?wc (p # rel) = files w (p # rel)" by simp
  qed
  have "[''.fx'', ''configs'', ''localSettings.json''] \<in> set legacyFiles"
    by (simp add: legacyFiles_def)
  with all_back have settings: "files ?wc [p, ''.fx'', ''configs'', ''localSettings.json'']
      = files w [p, ''.fx'', ''configs'', ''localSettings.json'']"
    by blast
  show ?thesis
    using call restored deleted folder accounted all_back settings
    by (intro exI [of _ ?wc] conjI)
qed

theorem C1_rollback_restores_witness:
  "\<exists>w2. consolidateLocalRemote
          (sample_env (fail_at (CopyToBackup
             [''proj'', ''templates'', ''appPackage'', ''manifest.local.template.json'']))
             False None) sample_ctx sample_world = (Inl (IOError ''EIO''), w2)
      \<and> files w2 [''proj'', ''.fx'', ''configs'', ''localSettings.json''] = Some (File ''LS'')
      \<and> files w2 [''proj'', ''.backup''] = None
      \<and> files w2 [''proj'', ''.backup'', ''.fx'', ''configs'', ''localSettings.json''] = None"
proof -
  let ?e = "sample_env (fail_at (CopyToBackup
             [''proj'', ''templates'', ''appPackage'', ''manifest.local.template.json''])) False None"
  let ?i = "\<lparr>projectPath = Some ''proj'', platform = Some CLI\<rparr>"
  let ?ps = "\<lparr>appName = ''app'', isSPFx = False\<rparr>"
  let ?w0 = "sample_world\<lparr>telemetry := telemetry sample_world @ [Event ProjectConsolidateUpgradeStart],
               fileList := [], removeMap := [], moveFiles := []\<rparr>"
  let ?t = "transform ?e [''proj''] ?ps ?i ?w0"
  have a: "ctxInputs sample_ctx = Some ?i"
    by (simp add: ctxInputs_def sample_ctx_def argInputs_def)
  have b: "projectPath ?i = Some ''proj''" by simp
  have c: "loadProjectSettings ?e ?i = Ok ?ps" by (simp add: sample_env_def)
  have run: "\<exists>w1. ?t = (Some (IOError ''EIO''), w1) \<and>
      removeMap w1 = [([''proj'', ''.backup'', ''.fx'', ''configs'', ''localSettings.json''],
                       [''proj'', ''.fx'', ''configs'', ''localSettings.json''])]"
    by (simp add: model_defs sample_defs diff.simps ignoreKeys_def)
  then obtain w1 where d: "?t = (Some (IOError ''EIO''), w1)"
    and rm: "removeMap w1 = [([''proj'', ''.backup'', ''.fx'', ''configs'', ''localSettings.json''],
                       [''proj'', ''.fx'', ''configs'', ''localSettings.json''])]"
    by blast
  have f: "\<forall>b. fault ?e (RestoreCopy b) = None" "\<forall>q. fault ?e (RemoveCreated q) = None"
    "fault ?e RemoveBackupFolder = None"
    by (simp_all add: sample_env_def fail_at_def)
  from C1_rollback_restores [OF a b c d f] obtain w2 where
    w2: "consolidateLocalRemote ?e sample_ctx sample_world = (Inl (IOError ''EIO''), w2)"
    and copied_back: "\<forall>(b, orig) \<in> set (removeMap w1). pathExists (files sample_world) orig \<and>
        files w1 b = files sample_world orig \<and> files w2 orig = files sample_world orig"
    and folder: "\<forall>q. prefix [''proj'', backupFolder] q \<longrightarrow> files w2 q = None"
    by blast
  from copied_back rm have "files w2 [''proj'', ''.fx'', ''configs'', ''localSettings.json'']
      = files sample_world [''proj'', ''.fx'', ''configs'', ''localSettings.json'']"
    by simp
  then have 1: "files w2 [''proj'', ''.fx'', ''configs'', ''localSettings.json''] = Some (File ''LS'')"
    by (simp add: sample_world_def sample_files_def)
  from folder have 2: "files w2 [''proj'', ''.backup''] = None"
    "files w2 [''proj'', ''.backup'', ''.fx'', ''configs'', ''localSettings.json''] = None"
    by (simp_all add: backupFolder_def)
  from w2 1 2 show ?thesis by blast
qed

text \<open>
  The file list does not name what the transformer wrote. In the run that fails at the
  copy of the local manifest, the rollback removes \<^verbatim>\<open>env.local.json\<close> and
  \<^verbatim>\<open>template.manifest.json\<close>, which do not exist; the environment config file
  \<^verbatim>\<open>config.local.json\<close> written by step 1 and the unified manifest written by step 2
  stay on disk.
\<close>

lemma rollback_leaves_written_files:
  "sample_files (envConfigPath [''proj''] getLocalEnvName) = None
   \<and> sample_files (getManifestTemplatePath [''proj'']) = None
   \<and> (\<exists>w'. consolidateLocalRemote
          (sample_env (fail_at (CopyToBackup
             [''proj'', ''templates'', ''appPackage'', ''manifest.local.template.json'']))
             False None) sample_ctx sample_world = (Inl (IOError ''EIO''), w')
      \<and> fileList w' = [[''proj'', ''.fx'', ''configs'', ''env.local.json''],
                        [''proj'', ''templates'', ''appPackage'', ''template.manifest.json'']]
      \<and> files w' (envConfigPath [''proj''] getLocalEnvName)
          = Some (File ''config of app-local-debug'')
      \<and> files w' (getManifestTemplatePath [''proj'']) = Some (File ''REMOTE''))"
  by (simp add: model_defs sample_defs diff.simps ignoreKeys_def)


text \<open>
  In every run, at every point of the \<^verbatim>\<open>try\<close> block, the file list names neither
  the unified manifest template nor the environment config file.
\<close>

lemma fileList_never_names_written_files:
  assumes "fileList w = []" "run_steps (take k (transform_steps e [p] ps i)) w = (r, w')"
  shows "getManifestTemplatePath [p] \<notin> set (fileList w') \<and>
         envConfigPath [p] getLocalEnvName \<notin> set (fileList w')"
  using transform_prefix_fileList [OF assms]
  by (auto simp: recordedPaths_def getManifestTemplatePath_def envConfigPath_def
                 getLocalEnvName_def path_join_def)

text \<open>
  C6 fails on the code. In both branches the unified manifest is written to
  \<^verbatim>\<open>templates/appPackage/manifest.template.json\<close>, and the path appended to the file
  list is \<^verbatim>\<open>templates/appPackage/template.manifest.json\<close>: the file list never names
  the file that was written.
\<close>

theorem C6_fileList_records_other_path:
  "(\<exists>w'. consolidateLocalRemote (sample_env no_fault False None) sample_ctx sample_world
            = (Inr True, w')
      \<and> files w' (getManifestTemplatePath [''proj'']) = Some (File ''REMOTE'')
      \<and> fileList w' = [[''proj'', ''.fx'', ''configs'', ''env.local.json''],
                        [''proj'', ''templates'', ''appPackage'', ''template.manifest.json'']]
      \<and> getManifestTemplatePath [''proj''] \<notin> set (fileList w'))
   \<and> (\<exists>w'. consolidateLocalRemote (sample_env no_fault True None) sample_ctx sample_world
            = (Inr True, w')
      \<and> files w' (getManifestTemplatePath [''proj''])
          = Some (File ''https://site/hosted.aspx%3FcomponentId=abc123%26id=abc123;'')
      \<and> fileList w' = [[''proj'', ''.fx'', ''configs'', ''env.local.json''],
                        [''proj'', ''templates'', ''appPackage'', ''template.manifest.json'']]
      \<and> getManifestTemplatePath [''proj''] \<notin> set (fileList w'))
   \<and> getManifestTemplatePath [''proj'']
       = [''proj'', ''templates'', ''appPackage'', ''manifest.template.json'']"
  by (simp add: model_defs sample_defs diff.simps ignoreKeys_def rewriteSPFxManifest_def
        staticComponentId_def replaceSPFxComponentId_def jsString_def truthy_def idchar_def)


section \<open>Claims about the SPFx manifest\<close>






















end
